theory Spec2Isabelle
  imports Main "HOL-Library.Char_ord" "HOL-Library.AList"
begin

section \<open>Python values used by the ECS service scheduler\<close>

text \<open>
  Strings are lists of characters; a character stands for a code point below 256.
  A Python dict from strings to strings is an association list with distinct keys in
  insertion order: \<open>map_of\<close> reads it, \<open>AList.update\<close> is \<open>d[k] = v\<close> (the value is
  replaced in place when the key exists, the pair is added at the end otherwise) and
  \<open>AList.delete\<close> removes a key.
\<close>

type_synonym pydict = "(string \<times> string) list"

datatype exn = KeyError string | ValueError string | ClientError string

text \<open>\<open>s.split(c)\<close>: split at every occurrence of the separator.\<close>

fun split_on :: "char \<Rightarrow> string \<Rightarrow> string list" where
  "split_on c [] = [[]]"
| "split_on c (x # xs) =
     (if x = c then [] # split_on c xs
      else (case split_on c xs of [] \<Rightarrow> [[x]] | y # ys \<Rightarrow> (x # y) # ys))"

text \<open>\<open>s.split(c, 1)\<close>: split at the first occurrence of the separator only.\<close>

definition split_first :: "char \<Rightarrow> string \<Rightarrow> string list" where
  "split_first c s =
     (if c \<in> set s then [takeWhile (\<lambda>x. x \<noteq> c) s, tl (dropWhile (\<lambda>x. x \<noteq> c) s)]
      else [s])"

text \<open>\<open>a, b = xs\<close>: unpacking into two names raises ValueError unless there are two items.\<close>

fun unpack2 :: "string list \<Rightarrow> exn + (string \<times> string)" where
  "unpack2 [a, b] = Inr (a, b)"
| "unpack2 [] = Inl (ValueError ''not enough values to unpack'')"
| "unpack2 [a] = Inl (ValueError ''not enough values to unpack'')"
| "unpack2 (a # b # c # cs) = Inl (ValueError ''too many values to unpack'')"

section \<open>Schedule from a maintenance window\<close>

definition MAINTENANCE_SCHEDULE_NAME :: string where
  "MAINTENANCE_SCHEDULE_NAME = ''RDS preferred Maintenance Window Schedule''"

definition MAINTENANCE_PERIOD_NAME :: string where
  "MAINTENANCE_PERIOD_NAME = ''RDS preferred Maintenance Window Period''"

text \<open>
  \<open>RunningPeriod\<close> and \<open>InstanceSchedule\<close> are classes of the configuration package; the
  scheduler only constructs them, so they are records of the constructor arguments it
  passes. An entry of the period list is a dict with the key \<open>period\<close> and, in the
  two-period branch only, the key \<open>instancetype\<close> bound to None: \<open>instancetype\<close> is
  \<open>None\<close> when the key is absent and \<open>Some None\<close> when it is bound to None.
\<close>

record ('t, 'w) RunningPeriod =
  period_name :: string
  begintime :: 't
  endtime :: 't
  weekdays :: 'w

record ('t, 'w) period_entry =
  period :: "('t, 'w) RunningPeriod"
  instancetype :: "string option option"

record ('t, 'w) InstanceSchedule =
  schedule_name :: string
  periods :: "('t, 'w) period_entry list"
  timezone :: string
  enforced :: bool

text \<open>
  \<open>WeekdaySetBuilder().build\<close> and \<open>SchedulerConfigBuilder.get_time_from_string\<close> live in
  the configuration package: they are the parameters \<open>build\<close> and \<open>get_time\<close>, each free
  to raise.
\<close>

definition build_schedule_from_maintenance_window ::
  "(string \<Rightarrow> exn + 'w) \<Rightarrow> (string \<Rightarrow> exn + 't) \<Rightarrow> string \<Rightarrow> exn + ('t, 'w) InstanceSchedule" where
  "build_schedule_from_maintenance_window build get_time period_str =
    (case unpack2 (split_on (CHR ''-'') period_str) of Inl e \<Rightarrow> Inl e
     | Inr (start_string, stop_string) \<Rightarrow>
    (case unpack2 (split_first (CHR '':'') start_string) of Inl e \<Rightarrow> Inl e
     | Inr (start_day_string, start_hhmm_string) \<Rightarrow>
    (case unpack2 (split_first (CHR '':'') stop_string) of Inl e \<Rightarrow> Inl e
     | Inr (stop_day_string, stop_hhmm_string) \<Rightarrow>
    (case build start_day_string of Inl e \<Rightarrow> Inl e | Inr start_weekday \<Rightarrow>
    (case get_time start_hhmm_string of Inl e \<Rightarrow> Inl e | Inr start_time \<Rightarrow>
    (case get_time stop_hhmm_string of Inl e \<Rightarrow> Inl e | Inr end_time \<Rightarrow>
      if start_day_string = stop_day_string then
        Inr \<lparr>schedule_name = MAINTENANCE_SCHEDULE_NAME,
             periods = [\<lparr>period = \<lparr>period_name = MAINTENANCE_PERIOD_NAME,
                                    begintime = start_time, endtime = end_time,
                                    weekdays = start_weekday\<rparr>,
                         instancetype = None\<rparr>],
             timezone = ''UTC'', enforced = True\<rparr>
      else
        (case get_time ''23:59'' of Inl e \<Rightarrow> Inl e | Inr end_time_day1 \<Rightarrow>
        (case get_time ''00:00'' of Inl e \<Rightarrow> Inl e | Inr begin_time_day2 \<Rightarrow>
        (case build stop_day_string of Inl e \<Rightarrow> Inl e | Inr stop_weekday \<Rightarrow>
          Inr \<lparr>schedule_name = MAINTENANCE_SCHEDULE_NAME,
               periods =
                 [\<lparr>period = \<lparr>period_name = MAINTENANCE_PERIOD_NAME @ ''-'' @ start_day_string,
                              begintime = start_time, endtime = end_time_day1,
                              weekdays = start_weekday\<rparr>,
                   instancetype = Some None\<rparr>,
                  \<lparr>period = \<lparr>period_name = MAINTENANCE_PERIOD_NAME @ ''-'' @ stop_day_string,
                              begintime = begin_time_day2, endtime = end_time,
                              weekdays = stop_weekday\<rparr>,
                   instancetype = Some None\<rparr>],
               timezone = ''UTC'', enforced = True\<rparr>)))))))))"

text \<open>
  Modelled from the spec: the minutes a period stands for; the evaluation of a
  \<open>RunningPeriod\<close> is not among the sources at hand. The spec writes a period as the
  closed interval of its begin and end time on its weekdays; \<open>minute_of\<close> reads a time of
  day as minutes after midnight and \<open>on_day\<close> tells whether a weekday (0 to 6) is in a
  weekday value.
\<close>

definition period_covers ::
  "('t \<Rightarrow> nat) \<Rightarrow> ('w \<Rightarrow> nat \<Rightarrow> bool) \<Rightarrow> ('t, 'w) RunningPeriod \<Rightarrow> nat \<Rightarrow> nat \<Rightarrow> bool" where
  "period_covers minute_of on_day p d m \<longleftrightarrow>
     on_day (weekdays p) d \<and> minute_of (begintime p) \<le> m \<and> m \<le> minute_of (endtime p)"

text \<open>
  Modelled from the spec: the source interval of a window, from minute \<open>m1\<close> of weekday
  \<open>d1\<close> to minute \<open>m2\<close> of weekday \<open>d2\<close>, both ends included, in the cyclic week of
  \<open>7 * 1440\<close> minutes.
\<close>

definition week_minute :: "nat \<Rightarrow> nat \<Rightarrow> int" where
  "week_minute d m = int d * 1440 + int m"

definition window_covers :: "nat \<Rightarrow> nat \<Rightarrow> nat \<Rightarrow> nat \<Rightarrow> nat \<Rightarrow> nat \<Rightarrow> bool" where
  "window_covers d1 m1 d2 m2 d m \<longleftrightarrow>
     (week_minute d m - week_minute d1 m1) mod 10080
       \<le> (week_minute d2 m2 - week_minute d1 m1) mod 10080"

text \<open>
  Modelled from the spec: \<open>WeekdaySetBuilder().build\<close> and
  \<open>SchedulerConfigBuilder.get_time_from_string\<close> are not among the sources at hand. The
  spec has them parse a weekday token into a single weekday value and \<open>HH:MM\<close> into a
  time of day; these two parsers do that for the three-letter English weekday names
  (Monday is 0) and for two-digit hours and minutes (as minutes after midnight), and
  serve to run the builder on concrete windows.
\<close>

definition weekday_names :: "string list" where
  "weekday_names = [''Mon'', ''Tue'', ''Wed'', ''Thu'', ''Fri'', ''Sat'', ''Sun'']"

fun index_of :: "'a \<Rightarrow> 'a list \<Rightarrow> nat option" where
  "index_of x [] = None"
| "index_of x (y # ys) = (if x = y then Some 0 else map_option Suc (index_of x ys))"

definition weekday_token :: "string \<Rightarrow> exn + nat list" where
  "weekday_token s =
     (case index_of s weekday_names of None \<Rightarrow> Inl (ValueError s) | Some i \<Rightarrow> Inr [i])"

definition digit_val :: "char \<Rightarrow> nat" where
  "digit_val c = of_char c - 48"

definition is_digit :: "char \<Rightarrow> bool" where
  "is_digit c \<longleftrightarrow> CHR ''0'' \<le> c \<and> c \<le> CHR ''9''"

fun hhmm_time :: "string \<Rightarrow> exn + nat" where
  "hhmm_time [a, b, c, d, e] =
     (if is_digit a \<and> is_digit b \<and> c = CHR '':'' \<and> is_digit d \<and> is_digit e
         \<and> 10 * digit_val a + digit_val b < 24 \<and> 10 * digit_val d + digit_val e < 60
      then Inr ((10 * digit_val a + digit_val b) * 60 + (10 * digit_val d + digit_val e))
      else Inl (ValueError [a, b, c, d, e]))"
| "hhmm_time s = Inl (ValueError s)"

definition in_weekdays :: "nat list \<Rightarrow> nat \<Rightarrow> bool" where
  "in_weekdays w d \<longleftrightarrow> d \<in> set w"

section \<open>Tag values\<close>

text \<open>
  The character class of \<open>RESTRICTED_ECS_TAG_VALUE_SET_CHARACTERS\<close>, the pattern
  \<^verbatim>\<open>[^a-zA-Z0-9\s_\.:+/=\\@-]\<close>: a negated class given by its items. \<open>Whitespace\<close> is
  \<^verbatim>\<open>\s\<close>, which on a Python 3 string is the Unicode whitespace test; below 256 these
  are the code points 9 to 13, 28 to 32, 133 and 160.
\<close>

definition is_space :: "char \<Rightarrow> bool" where
  "is_space c \<longleftrightarrow>
     (9 \<le> (of_char c :: nat) \<and> (of_char c :: nat) \<le> 13)
     \<or> (28 \<le> (of_char c :: nat) \<and> (of_char c :: nat) \<le> 32)
     \<or> (of_char c :: nat) = 133 \<or> (of_char c :: nat) = 160"

datatype class_item = Range char char | Lit char | Whitespace

fun item_matches :: "class_item \<Rightarrow> char \<Rightarrow> bool" where
  "item_matches (Range a b) c \<longleftrightarrow> a \<le> c \<and> c \<le> b"
| "item_matches (Lit a) c \<longleftrightarrow> c = a"
| "item_matches Whitespace c \<longleftrightarrow> is_space c"

definition RESTRICTED_ECS_TAG_VALUE_SET_CHARACTERS :: "class_item list" where
  "RESTRICTED_ECS_TAG_VALUE_SET_CHARACTERS =
     [Range (CHR ''a'') (CHR ''z''), Range (CHR ''A'') (CHR ''Z''),
      Range (CHR ''0'') (CHR ''9''), Whitespace,
      Lit (CHR ''_''), Lit (CHR ''.''), Lit (CHR '':''), Lit (CHR ''+''), Lit (CHR ''/''),
      Lit (CHR ''=''), Lit (CHR 0x5C), Lit (CHR ''@''), Lit (CHR ''-'')]"

text \<open>
  \<open>re.sub(pattern, repl, s)\<close> for a pattern that is one negated character class: every
  character that no item matches is replaced.
\<close>

definition re_sub_negated_class :: "class_item list \<Rightarrow> string \<Rightarrow> string \<Rightarrow> string" where
  "re_sub_negated_class items repl s =
     concat (map (\<lambda>c. if list_ex (\<lambda>i. item_matches i c) items then [c] else repl) s)"

text \<open>\<open>s.replace(old, new)\<close> for a one-character \<open>old\<close>.\<close>

definition str_replace :: "char \<Rightarrow> string \<Rightarrow> string \<Rightarrow> string" where
  "str_replace old new s = concat (map (\<lambda>c. if c = old then new else [c]) s)"

text \<open>\<open>d.get(k, default)\<close> and \<open>d[k]\<close>, which raises KeyError on a missing key.\<close>

definition dict_get_default :: "pydict \<Rightarrow> string \<Rightarrow> string \<Rightarrow> string" where
  "dict_get_default d k dflt = (case map_of d k of None \<Rightarrow> dflt | Some v \<Rightarrow> v)"

definition dict_item :: "pydict \<Rightarrow> string \<Rightarrow> exn + string" where
  "dict_item d k = (case map_of d k of None \<Rightarrow> Inl (KeyError k) | Some v \<Rightarrow> Inr v)"

section \<open>Logging\<close>

text \<open>
  A call of the logger is recorded with its level, its message template and its
  arguments; the logger formats them. A tag record or a list of tag records among the
  arguments is recorded as it is, not as the text \<open>str\<close> prints for it.
\<close>

datatype level = INFO | WARNING | ERROR

datatype log_arg = Str string | Dict pydict | Dicts "pydict list" | Exc exn

type_synonym log_entry = "level \<times> string \<times> log_arg list"

definition ERR_STARTING_INSTANCE :: string where
  "ERR_STARTING_INSTANCE = ''Error starting rds {} {} ({})''"

definition ERR_STOPPING_INSTANCE :: string where
  "ERR_STOPPING_INSTANCE = ''Error stopping rds {} {}, ({})''"

definition INF_ADD_TAGS :: string where
  "INF_ADD_TAGS = ''Adding {} tags {} to instance {}''"

definition INF_REMOVE_KEYS :: string where
  "INF_REMOVE_KEYS = ''Removing {} key(s) {} from instance {}''"

definition WARN_TAGGING_STARTED :: string where
  "WARN_TAGGING_STARTED = ''Error setting start or stop tags to started instance {}, ({})''"

definition WARN_TAGGING_STOPPED :: string where
  "WARN_TAGGING_STOPPED = ''Error setting start or stop tags to stopped instance {}, ({})''"

definition WARN_RDS_TAG_VALUE :: string where
  "WARN_RDS_TAG_VALUE =
     ''Tag value '' @ [CHR 0x22] @ ''{}'' @ [CHR 0x22] @ '' for tag '' @ [CHR 0x22] @ ''{}''
     @ [CHR 0x22] @ '' changed to '' @ [CHR 0x22] @ ''{}'' @ [CHR 0x22]
     @ '' because it did contain characters that are not allowed ''
     @ ''in RDS tag values. The value can only contain only the set of Unicode letters, digits, ''
     @ ''white-space, '' @ [CHR 0x27] @ ''_'' @ [CHR 0x27] @ '', '' @ [CHR 0x27] @ ''.''
     @ [CHR 0x27] @ '', '' @ [CHR 0x27] @ ''/'' @ [CHR 0x27] @ '', '' @ [CHR 0x27] @ ''=''
     @ [CHR 0x27] @ '', '' @ [CHR 0x27] @ ''+'' @ [CHR 0x27] @ '', '' @ [CHR 0x27] @ ''-''
     @ [CHR 0x27]"

section \<open>Validation of tag values\<close>

text \<open>
  \<open>_validate_ecs_tag_values\<close> works on a deep copy of the tag list and returns it; the
  warnings it logs are returned beside the copy, in the order of the tags.
\<close>

fun validate_ecs_tag_values :: "pydict list \<Rightarrow> pydict list \<times> log_entry list" where
  "validate_ecs_tag_values [] = ([], [])"
| "validate_ecs_tag_values (t # ts) =
     (let original_value = dict_get_default t ''value'' '''';
          value = re_sub_negated_class RESTRICTED_ECS_TAG_VALUE_SET_CHARACTERS '' ''
                    original_value;
          value = str_replace (CHR 0x0A) '' '' value;
          (result, warnings) = validate_ecs_tag_values ts
      in if value \<noteq> original_value
         then (AList.update ''value'' value t # result,
               (WARNING, WARN_RDS_TAG_VALUE, [Str original_value, Dict t, Str value])
                 # warnings)
         else (t # result, warnings))"

text \<open>
  The allowed set of the spec (letters, digits, whitespace and the characters
  \<open>_ . : + / = \ @ -\<close>) as the pattern has it, with the letters \<open>a\<close> to \<open>z\<close> and \<open>A\<close> to \<open>Z\<close>
  and the digits \<open>0\<close> to \<open>9\<close>; a value is valid when all its characters are in the set and
  none is a newline, and a character is sanitised to a space unless it is valid.
\<close>

definition is_letter :: "char \<Rightarrow> bool" where
  "is_letter c \<longleftrightarrow> (CHR ''a'' \<le> c \<and> c \<le> CHR ''z'') \<or> (CHR ''A'' \<le> c \<and> c \<le> CHR ''Z'')"

definition allowed_char :: "char \<Rightarrow> bool" where
  "allowed_char c \<longleftrightarrow>
     is_letter c \<or> is_digit c \<or> is_space c \<or> c \<in> set ''_.:+/=@-'' \<or> c = CHR 0x5C"

definition sanitise_char :: "char \<Rightarrow> char" where
  "sanitise_char c = (if allowed_char c \<and> c \<noteq> CHR 0x0A then c else CHR '' '')"

definition valid_value :: "string \<Rightarrow> bool" where
  "valid_value s \<longleftrightarrow> list_all (\<lambda>c. allowed_char c \<and> c \<noteq> CHR 0x0A) s"

definition tag_value :: "pydict \<Rightarrow> string" where
  "tag_value t = dict_get_default t ''value'' ''''"

section \<open>Integers as text\<close>

text \<open>
  \<open>str(n)\<close> of an integer: its decimal digits, after a minus sign when negative.
  \<open>digit_char\<close> is only applied to numbers below ten.
\<close>

definition digit_char :: "nat \<Rightarrow> char" where
  "digit_char n = ''0123456789'' ! n"

fun nat_digits :: "nat \<Rightarrow> string" where
  "nat_digits n = (if n < 10 then [digit_char n] else nat_digits (n div 10) @ [digit_char (n mod 10)])"

declare nat_digits.simps [simp del]

definition str_int :: "int \<Rightarrow> string" where
  "str_int i = (if i < 0 then CHR ''-'' # nat_digits (nat (- i)) else nat_digits (nat i))"

text \<open>
  \<open>int(s)\<close> of a string in base 10: surrounding whitespace is skipped, one sign is
  accepted, and the digits may be grouped by single underscores; anything else raises
  ValueError. The whitespace \<open>int\<close> skips is narrower than that of the pattern: it turns
  a whitespace character above 127 into a blank and then skips the ASCII whitespace 9
  to 13 and 32, so below 256 it skips 9 to 13, 32, 133 and 160, and the separators 28
  to 31 make the text invalid.
\<close>

definition is_int_space :: "char \<Rightarrow> bool" where
  "is_int_space c \<longleftrightarrow>
     (9 \<le> (of_char c :: nat) \<and> (of_char c :: nat) \<le> 13)
     \<or> (of_char c :: nat) = 32 \<or> (of_char c :: nat) = 133 \<or> (of_char c :: nat) = 160"

definition int_strip :: "string \<Rightarrow> string" where
  "int_strip s = rev (dropWhile is_int_space (rev (dropWhile is_int_space s)))"

fun digits_ok :: "string \<Rightarrow> bool" where
  "digits_ok [] = False"
| "digits_ok [c] = is_digit c"
| "digits_ok (c # d # cs) =
     (is_digit c \<and> (if d = CHR ''_'' then digits_ok cs else digits_ok (d # cs)))"

definition digits_value :: "string \<Rightarrow> nat" where
  "digits_value ds = foldl (\<lambda>acc c. 10 * acc + digit_val c) 0 (filter (\<lambda>c. c \<noteq> CHR ''_'') ds)"

definition py_int :: "string \<Rightarrow> exn + int" where
  "py_int s =
     (case int_strip s of
        [] \<Rightarrow> Inl (ValueError s)
      | c # cs \<Rightarrow>
          if c = CHR ''-'' then
            (if digits_ok cs then Inr (- int (digits_value cs)) else Inl (ValueError s))
          else if c = CHR ''+'' then
            (if digits_ok cs then Inr (int (digits_value cs)) else Inl (ValueError s))
          else
            (if digits_ok (c # cs) then Inr (int (digits_value (c # cs)))
             else Inl (ValueError s)))"

section \<open>Tag reconciliation and the start/stop executor\<close>

datatype schedule_state = STATE_RUNNING | STATE_STOPPED

text \<open>
  The attributes the executor reads of a resource handed to it; \<open>inst_id\<close> is the
  attribute \<open>id\<close>.
\<close>

record ecs_resource =
  inst_id :: string
  arn :: string
  cluster_arn :: string
  desired_count :: int
  tags :: pydict
  is_cluster :: bool

text \<open>
  The calls of the ECS client that change a service. The client is outside the
  scheduler: \<open>env\<close> decides, from the calls made so far with their outcomes and the call
  at hand, whether the call raises. The world holds the trace of the calls, the log and
  the two tag lists of the configuration object, which the tagging paths share with
  their caller.
\<close>

datatype call =
    UpdateService string string int
  | TagResource string "pydict list"
  | UntagResource string "string list"

type_synonym env = "(call \<times> exn option) list \<Rightarrow> call \<Rightarrow> exn option"

record world =
  calls :: "(call \<times> exn option) list"
  log :: "log_entry list"
  started_tags :: "pydict list"
  stopped_tags :: "pydict list"

definition invoke :: "env \<Rightarrow> call \<Rightarrow> world \<Rightarrow> exn option \<times> world" where
  "invoke env c w = (env (calls w) c, w\<lparr>calls := calls w @ [(c, env (calls w) c)]\<rparr>)"

definition logger :: "level \<Rightarrow> string \<Rightarrow> log_arg list \<Rightarrow> world \<Rightarrow> world" where
  "logger lv msg args w = w\<lparr>log := log w @ [(lv, msg, args)]\<rparr>"

text \<open>
  The renaming both tagging paths apply to a tag record:
  \<^verbatim>\<open>if 'Key' in t and 'Value' in t: t['key'] = t.pop('Key'); t['value'] = t.pop('Value')\<close>
\<close>

definition rename_tag :: "pydict \<Rightarrow> pydict" where
  "rename_tag t =
     (case (map_of t ''Key'', map_of t ''Value'') of
        (Some k, Some v) \<Rightarrow>
          AList.update ''value'' v (AList.delete ''Value''
            (AList.update ''key'' k (AList.delete ''Key'' t)))
      | _ \<Rightarrow> t)"

text \<open>\<^verbatim>\<open>[t["key"] for t in ts]\<close> and \<^verbatim>\<open>[t["key"] for t in ts if t["key"] not in names]\<close>.\<close>

fun keys_of :: "pydict list \<Rightarrow> exn + string list" where
  "keys_of [] = Inr []"
| "keys_of (t # ts) =
     (case dict_item t ''key'' of Inl e \<Rightarrow> Inl e
      | Inr k \<Rightarrow> (case keys_of ts of Inl e \<Rightarrow> Inl e | Inr ks \<Rightarrow> Inr (k # ks)))"

fun keys_not_in :: "pydict list \<Rightarrow> string list \<Rightarrow> exn + string list" where
  "keys_not_in [] names = Inr []"
| "keys_not_in (t # ts) names =
     (case dict_item t ''key'' of Inl e \<Rightarrow> Inl e
      | Inr k \<Rightarrow>
          (case keys_not_in ts names of Inl e \<Rightarrow> Inl e
           | Inr ks \<Rightarrow> Inr (if k \<notin> set names then k # ks else ks)))"

text \<open>\<^verbatim>\<open>",".join(["\"{}\"".format(k) for k in keys])\<close>\<close>

fun join_quoted :: "string list \<Rightarrow> string" where
  "join_quoted [] = []"
| "join_quoted [k] = [CHR 0x22] @ k @ [CHR 0x22]"
| "join_quoted (k # ks) = [CHR 0x22] @ k @ [CHR 0x22] @ '','' @ join_quoted ks"

definition captured_count_tag :: "int \<Rightarrow> pydict" where
  "captured_count_tag n = [(''key'', ''ScheduledLastDesiredCount''), (''value'', str_int n)]"

text \<open>
  The \<open>try\<close> block shared by both tagging paths: remove keys when there are any, then
  apply tags when there are any; an exception of either call is caught and logged as a
  warning, and the call after it is not made.
\<close>

definition untag_then_tag ::
  "env \<Rightarrow> ecs_resource \<Rightarrow> string \<Rightarrow> string \<Rightarrow> string \<Rightarrow> string list \<Rightarrow> pydict list \<Rightarrow> world \<Rightarrow> world" where
  "untag_then_tag env r removed added warn remove_keys add_tags w =
     (let (raised, w1) =
            (if remove_keys \<noteq> [] then
               invoke env (UntagResource (arn r) remove_keys)
                 (logger INFO INF_REMOVE_KEYS
                    [Str removed, Str (join_quoted remove_keys), Str (arn r)] w)
             else (None, w))
      in case raised of
           Some ex \<Rightarrow> logger WARNING warn [Str (inst_id r), Exc ex] w1
         | None \<Rightarrow>
             if length add_tags > 0 then
               (case invoke env (TagResource (arn r) add_tags)
                       (logger INFO INF_ADD_TAGS [Str added, Dicts add_tags, Str (arn r)] w1) of
                  (Some ex, w2) \<Rightarrow> logger WARNING warn [Str (inst_id r), Exc ex] w2
                | (None, w2) \<Rightarrow> w2)
             else w1)"

definition tag_stopped_resource :: "env \<Rightarrow> ecs_resource \<Rightarrow> world \<Rightarrow> (exn + unit) \<times> world" where
  "tag_stopped_resource env r w =
     (let (validated, warnings) = validate_ecs_tag_values (stopped_tags w);
          w1 = w\<lparr>log := log w @ warnings\<rparr>;
          stop_tags = map rename_tag validated;
          w2 = w1\<lparr>started_tags := map rename_tag (started_tags w1)\<rparr>;
          stop_tags = stop_tags @ [captured_count_tag (desired_count r)]
      in case keys_of stop_tags of
           Inl e \<Rightarrow> (Inl e, w2)
         | Inr stop_tags_key_names \<Rightarrow>
             (case keys_not_in (started_tags w2) stop_tags_key_names of
                Inl e \<Rightarrow> (Inl e, w2)
              | Inr start_tags_keys \<Rightarrow>
                  (Inr (), untag_then_tag env r ''start'' ''stop'' WARN_TAGGING_STOPPED
                             start_tags_keys stop_tags w2)))"

definition tag_started_instances :: "env \<Rightarrow> ecs_resource \<Rightarrow> world \<Rightarrow> (exn + unit) \<times> world" where
  "tag_started_instances env r w =
     (let (validated, warnings) = validate_ecs_tag_values (started_tags w);
          w1 = w\<lparr>log := log w @ warnings\<rparr>;
          start_tags = map rename_tag validated;
          w2 = w1\<lparr>stopped_tags := map rename_tag (stopped_tags w1)\<rparr>
      in case keys_of start_tags of
           Inl e \<Rightarrow> (Inl e, w2)
         | Inr start_tags_key_names \<Rightarrow>
             (case keys_not_in (stopped_tags w2) start_tags_key_names of
                Inl e \<Rightarrow> (Inl e, w2)
              | Inr stop_tags_keys \<Rightarrow>
                  (Inr (), untag_then_tag env r ''stop'' ''start'' WARN_TAGGING_STARTED
                             stop_tags_keys start_tags w2)))"

text \<open>
  The body of the loop of \<open>stop_instances\<close> for one resource, up to the \<open>yield\<close>: the
  resize to zero, then the stop tagging. \<open>Inl\<close> is an exception that reaches the
  \<open>except\<close> clause around the loop.
\<close>

definition stop_resource :: "env \<Rightarrow> ecs_resource \<Rightarrow> world \<Rightarrow> (exn + unit) \<times> world" where
  "stop_resource env r w =
     (case invoke env (UpdateService (cluster_arn r) (arn r) 0) w of
        (Some ex, w1) \<Rightarrow> (Inl ex, w1)
      | (None, w1) \<Rightarrow> tag_stopped_resource env r w1)"

definition resource_kind :: "ecs_resource \<Rightarrow> string" where
  "resource_kind r = (if is_cluster r then ''cluster'' else ''instance'')"

text \<open>
  \<open>stop_instances\<close> is a generator; the model runs it to its end and returns the pairs it
  yields, in order, with the world it leaves.
\<close>

fun stop_instances ::
  "env \<Rightarrow> ecs_resource list \<Rightarrow> world \<Rightarrow> (string \<times> schedule_state) list \<times> world" where
  "stop_instances env [] w = ([], w)"
| "stop_instances env (r # rs) w =
     (case stop_resource env r w of
        (Inl ex, w1) \<Rightarrow>
          ([], logger ERROR ERR_STOPPING_INSTANCE [Str (resource_kind r), Str (arn r), Exc ex] w1)
      | (Inr u, w1) \<Rightarrow>
          (case stop_instances env rs w1 of
             (results, w2) \<Rightarrow> ((inst_id r, STATE_STOPPED) # results, w2)))"

text \<open>
  The body of the loop of \<open>start_instances\<close>: the desired count is read from the tag
  \<open>ScheduledLastDesiredCount\<close> of the resource and parsed before the resize is called.
\<close>

definition start_resource :: "env \<Rightarrow> ecs_resource \<Rightarrow> world \<Rightarrow> (exn + unit) \<times> world" where
  "start_resource env r w =
     (case dict_item (tags r) ''ScheduledLastDesiredCount'' of
        Inl e \<Rightarrow> (Inl e, w)
      | Inr s \<Rightarrow>
          (case py_int s of
             Inl e \<Rightarrow> (Inl e, w)
           | Inr n \<Rightarrow>
               (case invoke env (UpdateService (cluster_arn r) (arn r) n) w of
                  (Some ex, w1) \<Rightarrow> (Inl ex, w1)
                | (None, w1) \<Rightarrow> tag_started_instances env r w1)))"

fun start_instances ::
  "env \<Rightarrow> ecs_resource list \<Rightarrow> world \<Rightarrow> (string \<times> schedule_state) list \<times> world" where
  "start_instances env [] w = ([], w)"
| "start_instances env (r # rs) w =
     (case start_resource env r w of
        (Inl ex, w1) \<Rightarrow>
          ([], logger ERROR ERR_STARTING_INSTANCE [Str (resource_kind r), Str (arn r), Exc ex] w1)
      | (Inr u, w1) \<Rightarrow>
          (case start_instances env rs w1 of
             (results, w2) \<Rightarrow> ((inst_id r, STATE_RUNNING) # results, w2)))"

text \<open>
  A configuration is well formed for tagging when every tag record has the key \<open>key\<close>,
  or the keys \<open>Key\<close> and \<open>Value\<close> that the renaming turns into it.
\<close>

definition has_key :: "pydict \<Rightarrow> bool" where
  "has_key t \<longleftrightarrow> map_of t ''key'' \<noteq> None \<or> (map_of t ''Key'' \<noteq> None \<and> map_of t ''Value'' \<noteq> None)"

definition wf_config :: "world \<Rightarrow> bool" where
  "wf_config w \<longleftrightarrow> list_all has_key (started_tags w) \<and> list_all has_key (stopped_tags w)"

text \<open>
  Validation in the words of the spec, one tag at a time: the value of a tag is
  sanitised character by character, and a warning is due when that changes it.
\<close>

definition validate_tag :: "pydict \<Rightarrow> pydict" where
  "validate_tag t =
     (if map sanitise_char (tag_value t) \<noteq> tag_value t
      then AList.update ''value'' (map sanitise_char (tag_value t)) t else t)"

definition tag_warning :: "pydict \<Rightarrow> log_entry" where
  "tag_warning t =
     (WARNING, WARN_RDS_TAG_VALUE,
      [Str (tag_value t), Dict t, Str (map sanitise_char (tag_value t))])"

definition tag_key :: "pydict \<Rightarrow> string" where
  "tag_key t = dict_get_default t ''key'' ''''"

text \<open>A decimal digit, which is neither whitespace nor a sign nor an underscore.\<close>

definition plain_digit :: "char \<Rightarrow> bool" where
  "plain_digit c \<longleftrightarrow>
     is_digit c \<and> \<not> is_int_space c \<and> c \<noteq> CHR ''_'' \<and> c \<noteq> CHR ''-'' \<and> c \<noteq> CHR ''+''"


text \<open>
  The tag delta of a stop in the words of the spec: the stop tag set is the configured
  stopped tags, validated and renamed, with the captured desired count added; the keys
  to remove are the keys of the started tags that are not keys of the stop tag set. The
  delta of a start is the same with the two lists exchanged and no tag added.
\<close>

definition stop_tag_set :: "world \<Rightarrow> ecs_resource \<Rightarrow> pydict list" where
  "stop_tag_set w r =
     map rename_tag (map validate_tag (stopped_tags w)) @ [captured_count_tag (desired_count r)]"

definition stale_start_keys :: "world \<Rightarrow> ecs_resource \<Rightarrow> string list" where
  "stale_start_keys w r =
     filter (\<lambda>k. k \<notin> tag_key ` set (stop_tag_set w r))
       (map tag_key (map rename_tag (started_tags w)))"

definition start_tag_set :: "world \<Rightarrow> pydict list" where
  "start_tag_set w = map rename_tag (map validate_tag (started_tags w))"

definition stale_stop_keys :: "world \<Rightarrow> string list" where
  "stale_stop_keys w =
     filter (\<lambda>k. k \<notin> tag_key ` set (start_tag_set w))
       (map tag_key (map rename_tag (stopped_tags w)))"

text \<open>
  The calls the \<open>try\<close> block of a tagging path issues for the keys \<open>ks\<close> and the tags
  \<open>ts\<close> on the resource \<open>a\<close>, after the calls \<open>h\<close>: the removal when there are keys, and
  the application when there are tags and the removal, if made, returned.
\<close>

definition tagging_calls ::
  "env \<Rightarrow> string \<Rightarrow> string list \<Rightarrow> pydict list \<Rightarrow> (call \<times> exn option) list \<Rightarrow> call list" where
  "tagging_calls env a ks ts h =
     (if ks \<noteq> [] then [UntagResource a ks] else [])
     @ (if (ks = [] \<or> env h (UntagResource a ks) = None) \<and> ts \<noteq> [] then [TagResource a ts]
        else [])"

text \<open>A tag record that has the key \<open>key\<close>.\<close>

definition keyed :: "pydict \<Rightarrow> bool" where
  "keyed t \<longleftrightarrow> map_of t ''key'' \<noteq> None"

section \<open>Example inputs\<close>

text \<open>
  A configuration with tag records in the \<open>Key\<close>/\<open>Value\<close> form, three services, and
  clients that never raise, raise on every tagging call, or raise on the resize of one
  service.
\<close>

definition example_world :: world where
  "example_world =
     \<lparr>calls = [], log = [],
      started_tags = [[(''Key'', ''state''), (''Value'', ''on'')],
                      [(''Key'', ''owner''), (''Value'', ''ops'')]],
      stopped_tags = [[(''Key'', ''state''), (''Value'', ''off'')]]\<rparr>"

definition example_service :: "string \<Rightarrow> ecs_resource" where
  "example_service name =
     \<lparr>inst_id = name, arn = name, cluster_arn = ''cluster'', desired_count = 4,
      tags = [(''ScheduledLastDesiredCount'', ''4'')], is_cluster = False\<rparr>"

definition never_raises :: env where
  "never_raises h c = None"

definition tagging_raises :: env where
  "tagging_raises h c =
     (case c of UpdateService cl a n \<Rightarrow> None | _ \<Rightarrow> Some (ClientError ''denied''))"

definition resize_raises :: "string \<Rightarrow> env" where
  "resize_raises name h c =
     (case c of UpdateService cl a n \<Rightarrow> if a = name then Some (ClientError ''throttled'') else None
      | _ \<Rightarrow> None)"

text \<open>
  The example configuration with a stopped tag whose value has a character outside the
  allowed set, in the \<open>Key\<close>/\<open>Value\<close> form, and a service whose captured count is padded
  with the separator 28.
\<close>

definition raw_value_world :: world where
  "raw_value_world = example_world\<lparr>stopped_tags := [[(''Key'', ''state''), (''Value'', ''o#f'')]]\<rparr>"

definition padded_count_service :: "string \<Rightarrow> ecs_resource" where
  "padded_count_service name =
     (example_service name)\<lparr>tags := [(''ScheduledLastDesiredCount'', [CHR 0x1C, CHR ''4''])]\<rparr>"

section \<open>Discovery of schedulable services\<close>

text \<open>
  The records the ECS client returns for a cluster and for a service, with the fields
  the scheduler reads; \<open>tags\<close> is \<open>None\<close> when the record has no key \<open>tags\<close>. The reading
  calls of the client are functions of their arguments, the last of which is the
  continuation token the scheduler passes as \<open>NextToken\<close>; each returns the items of a
  page and the \<open>NextToken\<close> of the response, if it has one, or raises.
\<close>

record cluster_data =
  clusterName :: string
  cluster_tags :: "(string \<times> string) list option"

record service_data =
  serviceArn :: string
  clusterArn :: string
  status :: string
  runningCount :: int
  desiredCount :: int
  launchType :: string
  service_tags :: "(string \<times> string) list option"

record ecs_reader =
  list_clusters :: "string option \<Rightarrow> exn + (string list \<times> string option)"
  describe_clusters ::
    "string list \<Rightarrow> string option \<Rightarrow> exn + (cluster_data list \<times> string option)"
  list_services :: "string \<Rightarrow> string option \<Rightarrow> exn + (string list \<times> string option)"
  describe_services ::
    "string \<Rightarrow> string list \<Rightarrow> string option \<Rightarrow> exn + (service_data list \<times> string option)"

text \<open>The dict \<open>_select_resource_data\<close> builds, with the names of its keys.\<close>

record instance_data =
  INST_ID :: string
  INST_ARN :: string
  INST_CLUSTER_ARN :: string
  INST_ALLOW_RESIZE :: bool
  INST_HIBERNATE :: bool
  INST_STATE :: string
  INST_STATE_NAME :: string
  INST_IS_RUNNING :: bool
  INST_IS_TERMINATED :: bool
  INST_CURRENT_STATE :: schedule_state
  INST_INSTANCE_TYPE :: string
  INST_SERVICE_STOP_TAG :: bool
  INST_MAINTENANCE_WINDOW :: "string option"
  INST_TAGS :: pydict
  INST_NAME :: string
  INST_SCHEDULE :: "string option"
  INST_RUNNING_COUNT :: int
  INST_DESIRED_COUNT :: int

text \<open>\<^verbatim>\<open>{tag["key"]: tag["value"] for tag in inst["tags"]} if "tags" in inst else {}\<close>\<close>

definition get_tags :: "(string \<times> string) list option \<Rightarrow> pydict" where
  "get_tags ts =
     (case ts of None \<Rightarrow> [] | Some kvs \<Rightarrow> fold (\<lambda>(k, v) d. AList.update k v d) kvs [])"

definition filter_resource_based_on_tags :: "string \<Rightarrow> (string \<times> string) list option \<Rightarrow> bool" where
  "filter_resource_based_on_tags tagname ts \<longleftrightarrow> map_of (get_tags ts) tagname \<noteq> None"

definition select_resource_data :: "string \<Rightarrow> service_data \<Rightarrow> bool \<Rightarrow> instance_data" where
  "select_resource_data tagname ecs_resource tag_service_having_no_tag =
     (let tags = get_tags (service_tags ecs_resource);
          is_running = runningCount ecs_resource > 0
      in \<lparr>INST_ID = serviceArn ecs_resource,
           INST_ARN = serviceArn ecs_resource,
           INST_CLUSTER_ARN = clusterArn ecs_resource,
           INST_ALLOW_RESIZE = False,
           INST_HIBERNATE = False,
           INST_STATE = status ecs_resource,
           INST_STATE_NAME = ''running'',
           INST_IS_RUNNING = is_running,
           INST_IS_TERMINATED = False,
           INST_CURRENT_STATE = (if is_running then STATE_RUNNING else STATE_STOPPED),
           INST_INSTANCE_TYPE = launchType ecs_resource,
           INST_SERVICE_STOP_TAG = tag_service_having_no_tag,
           INST_MAINTENANCE_WINDOW = None,
           INST_TAGS = tags,
           INST_NAME = dict_get_default tags ''Name'' '''',
           INST_SCHEDULE = map_of tags tagname,
           INST_RUNNING_COUNT = runningCount ecs_resource,
           INST_DESIRED_COUNT = desiredCount ecs_resource\<rparr>)"

text \<open>
  The paging loops run \<open>while not done\<close>, so each takes fuel: \<open>None\<close> is a loop that has
  not ended within the fuel, \<open>Some (Inl e)\<close> an exception of the client.
\<close>

fun list_pages ::
  "nat \<Rightarrow> (string option \<Rightarrow> exn + (string list \<times> string option)) \<Rightarrow> string option
     \<Rightarrow> string list \<Rightarrow> (exn + string list) option" where
  "list_pages 0 call token acc = None"
| "list_pages (Suc n) call token acc =
     (case call token of
        Inl e \<Rightarrow> Some (Inl e)
      | Inr (arns, next_token) \<Rightarrow>
          (case next_token of
             Some t \<Rightarrow> list_pages n call (Some t) (acc @ arns)
           | None \<Rightarrow> Some (Inr (acc @ arns))))"

record mixed_clusters =
  clusters_with_schedule :: "string list"
  clusters_without_schedule :: "string list"

fun classify_clusters :: "string \<Rightarrow> cluster_data list \<Rightarrow> mixed_clusters \<Rightarrow> mixed_clusters" where
  "classify_clusters tagname [] m = m"
| "classify_clusters tagname (cluster_data # cs) m =
     classify_clusters tagname cs
       (if filter_resource_based_on_tags tagname (cluster_tags cluster_data)
        then m\<lparr>clusters_with_schedule := clusters_with_schedule m @ [clusterName cluster_data]\<rparr>
        else m\<lparr>clusters_without_schedule :=
                 clusters_without_schedule m @ [clusterName cluster_data]\<rparr>)"

fun validate_cluster_tag_values_loop ::
  "nat \<Rightarrow> ecs_reader \<Rightarrow> string \<Rightarrow> string list \<Rightarrow> string option \<Rightarrow> mixed_clusters
     \<Rightarrow> (exn + mixed_clusters) option" where
  "validate_cluster_tag_values_loop 0 client tagname clusters token m = None"
| "validate_cluster_tag_values_loop (Suc n) client tagname clusters token m =
     (case describe_clusters client clusters token of
        Inl e \<Rightarrow> Some (Inl e)
      | Inr (page, next_token) \<Rightarrow>
          (case next_token of
             Some t \<Rightarrow>
               validate_cluster_tag_values_loop n client tagname clusters (Some t)
                 (classify_clusters tagname page m)
           | None \<Rightarrow> Some (Inr (classify_clusters tagname page m))))"

definition get_schedulable_ecs_clusters ::
  "nat \<Rightarrow> ecs_reader \<Rightarrow> string \<Rightarrow> (exn + mixed_clusters) option" where
  "get_schedulable_ecs_clusters fuel client tagname =
     (case list_pages fuel (list_clusters client) None [] of
        None \<Rightarrow> None
      | Some (Inl e) \<Rightarrow> Some (Inl e)
      | Some (Inr clusters) \<Rightarrow>
          validate_cluster_tag_values_loop fuel client tagname clusters None
            \<lparr>clusters_with_schedule = [], clusters_without_schedule = []\<rparr>)"

text \<open>
  The describe loop of \<open>_validate_service_tag_values\<close>: every service of a page is
  selected, one without the schedule tag with the force-stop mark set.
\<close>

definition validate_service_page :: "string \<Rightarrow> service_data list \<Rightarrow> instance_data list" where
  "validate_service_page tagname page =
     map (\<lambda>service_data.
            if filter_resource_based_on_tags tagname (service_tags service_data)
            then select_resource_data tagname service_data False
            else select_resource_data tagname service_data True) page"

fun validate_service_tag_values_loop ::
  "nat \<Rightarrow> ecs_reader \<Rightarrow> string \<Rightarrow> string \<Rightarrow> string list \<Rightarrow> string option
     \<Rightarrow> instance_data list \<Rightarrow> (exn + instance_data list) option" where
  "validate_service_tag_values_loop 0 client tagname cluster services token all_services = None"
| "validate_service_tag_values_loop (Suc n) client tagname cluster services token all_services =
     (case describe_services client cluster services token of
        Inl e \<Rightarrow> Some (Inl e)
      | Inr (page, next_token) \<Rightarrow>
          (case next_token of
             Some t \<Rightarrow>
               validate_service_tag_values_loop n client tagname cluster services (Some t)
                 (all_services @ validate_service_page tagname page)
           | None \<Rightarrow> Some (Inr (all_services @ validate_service_page tagname page))))"

definition get_schedulable_ecs_services ::
  "nat \<Rightarrow> ecs_reader \<Rightarrow> string \<Rightarrow> string \<Rightarrow> (exn + instance_data list) option" where
  "get_schedulable_ecs_services fuel client tagname cluster =
     (case list_pages fuel (list_services client cluster) None [] of
        None \<Rightarrow> None
      | Some (Inl e) \<Rightarrow> Some (Inl e)
      | Some (Inr services) \<Rightarrow>
          validate_service_tag_values_loop fuel client tagname cluster services None [])"

text \<open>The describe loop of \<open>get_all_services\<close>: every service is selected, none marked.\<close>

fun all_services_loop ::
  "nat \<Rightarrow> ecs_reader \<Rightarrow> string \<Rightarrow> string \<Rightarrow> string list \<Rightarrow> string option
     \<Rightarrow> instance_data list \<Rightarrow> (exn + instance_data list) option" where
  "all_services_loop 0 client tagname cluster services token all_services = None"
| "all_services_loop (Suc n) client tagname cluster services token all_services =
     (case describe_services client cluster services token of
        Inl e \<Rightarrow> Some (Inl e)
      | Inr (page, next_token) \<Rightarrow>
          (case next_token of
             Some t \<Rightarrow>
               all_services_loop n client tagname cluster services (Some t)
                 (all_services @ map (\<lambda>service_data.
                                       select_resource_data tagname service_data False) page)
           | None \<Rightarrow>
               Some (Inr (all_services @ map (\<lambda>service_data.
                                       select_resource_data tagname service_data False) page))))"

definition get_all_services ::
  "nat \<Rightarrow> ecs_reader \<Rightarrow> string \<Rightarrow> string \<Rightarrow> (exn + instance_data list) option" where
  "get_all_services fuel client tagname cluster =
     (case list_pages fuel (list_services client cluster) None [] of
        None \<Rightarrow> None
      | Some (Inl e) \<Rightarrow> Some (Inl e)
      | Some (Inr services) \<Rightarrow>
          all_services_loop fuel client tagname cluster services None [])"

text \<open>
  The two loops of \<open>get_schedulable_instances\<close> over the clusters: the first assigns
  \<^verbatim>\<open>services = self.get_schedulable_ecs_services(cluster, ...)\<close>, the second calls
  \<^verbatim>\<open>services.extend(self.get_all_services(cluster, ...))\<close>.
\<close>

fun without_schedule_loop ::
  "nat \<Rightarrow> ecs_reader \<Rightarrow> string \<Rightarrow> string list \<Rightarrow> instance_data list
     \<Rightarrow> (exn + instance_data list) option" where
  "without_schedule_loop fuel client tagname [] services = Some (Inr services)"
| "without_schedule_loop fuel client tagname (cluster # cs) services =
     (case get_schedulable_ecs_services fuel client tagname cluster of
        None \<Rightarrow> None
      | Some (Inl e) \<Rightarrow> Some (Inl e)
      | Some (Inr found) \<Rightarrow> without_schedule_loop fuel client tagname cs found)"

fun with_schedule_loop ::
  "nat \<Rightarrow> ecs_reader \<Rightarrow> string \<Rightarrow> string list \<Rightarrow> instance_data list
     \<Rightarrow> (exn + instance_data list) option" where
  "with_schedule_loop fuel client tagname [] services = Some (Inr services)"
| "with_schedule_loop fuel client tagname (cluster # cs) services =
     (case get_all_services fuel client tagname cluster of
        None \<Rightarrow> None
      | Some (Inl e) \<Rightarrow> Some (Inl e)
      | Some (Inr found) \<Rightarrow> with_schedule_loop fuel client tagname cs (services @ found))"

definition get_schedulable_instances ::
  "nat \<Rightarrow> ecs_reader \<Rightarrow> string \<Rightarrow> (exn + instance_data list) option" where
  "get_schedulable_instances fuel client tagname =
     (case get_schedulable_ecs_clusters fuel client tagname of
        None \<Rightarrow> None
      | Some (Inl e) \<Rightarrow> Some (Inl e)
      | Some (Inr mixed_clusters) \<Rightarrow>
          (case without_schedule_loop fuel client tagname
                  (clusters_without_schedule mixed_clusters) [] of
             None \<Rightarrow> None
           | Some (Inl e) \<Rightarrow> Some (Inl e)
           | Some (Inr services) \<Rightarrow>
               with_schedule_loop fuel client tagname
                 (clusters_with_schedule mixed_clusters) services))"

text \<open>
  An inventory of two clusters without the schedule tag: \<open>alpha\<close> with the untagged
  service \<open>svc-a\<close>, \<open>beta\<close> with the tagged service \<open>svc-b\<close>. Every call answers in one page.
\<close>

definition example_service_data :: "string \<Rightarrow> string \<Rightarrow> (string \<times> string) list \<Rightarrow> service_data" where
  "example_service_data cluster name ts =
     \<lparr>serviceArn = name, clusterArn = cluster, status = ''ACTIVE'', runningCount = 1,
      desiredCount = 1, launchType = ''FARGATE'', service_tags = Some ts\<rparr>"

definition two_untagged_clusters :: ecs_reader where
  "two_untagged_clusters =
     \<lparr>list_clusters = (\<lambda>token. Inr ([''alpha'', ''beta''], None)),
      describe_clusters =
        (\<lambda>clusters token.
           Inr (map (\<lambda>c. \<lparr>clusterName = c, cluster_tags = Some []\<rparr>) clusters, None)),
      list_services =
        (\<lambda>cluster token. Inr (if cluster = ''alpha'' then [''svc-a''] else [''svc-b''], None)),
      describe_services =
        (\<lambda>cluster services token.
           Inr (if cluster = ''alpha'' then [example_service_data ''alpha'' ''svc-a'' []]
                else [example_service_data ''beta'' ''svc-b'' [(''Schedule'', ''office'')]],
                None))\<rparr>"

section \<open>Properties of the maintenance-window builder\<close>

lemma split_on_no_sep: "c \<notin> set s \<Longrightarrow> split_on c s = [s]"
  by (induction s) auto

lemma split_on_one_sep:
  "c \<notin> set a \<Longrightarrow> c \<notin> set b \<Longrightarrow> split_on c (a @ c # b) = [a, b]"
  by (induction a) (auto simp: split_on_no_sep)

lemma split_first_sep: "c \<notin> set a \<Longrightarrow> split_first c (a @ c # b) = [a, b]"
proof -
  assume a: "c \<notin> set a"
  have t: "takeWhile (\<lambda>x. x \<noteq> c) (a @ c # b) = a"
    using a by (induction a) auto
  have d: "dropWhile (\<lambda>x. x \<noteq> c) (a @ c # b) = c # b"
    using a by (induction a) auto
  show ?thesis by (simp add: split_first_def t d)
qed

lemma window_parts:
  assumes "CHR ''-'' \<notin> set (sd @ st @ td @ tt)"
    and "CHR '':'' \<notin> set sd" and "CHR '':'' \<notin> set td"
  shows "unpack2 (split_on (CHR ''-'') (sd @ '':'' @ st @ ''-'' @ td @ '':'' @ tt))
           = Inr (sd @ '':'' @ st, td @ '':'' @ tt)"
    and "unpack2 (split_first (CHR '':'') (sd @ '':'' @ st)) = Inr (sd, st)"
    and "unpack2 (split_first (CHR '':'') (td @ '':'' @ tt)) = Inr (td, tt)"
proof -
  have "CHR ''-'' \<notin> set (sd @ '':'' @ st)" "CHR ''-'' \<notin> set (td @ '':'' @ tt)"
    using assms(1) by auto
  then have "split_on (CHR ''-'') ((sd @ '':'' @ st) @ CHR ''-'' # (td @ '':'' @ tt))
               = [sd @ '':'' @ st, td @ '':'' @ tt]"
    by (rule split_on_one_sep)
  then show "unpack2 (split_on (CHR ''-'') (sd @ '':'' @ st @ ''-'' @ td @ '':'' @ tt))
           = Inr (sd @ '':'' @ st, td @ '':'' @ tt)"
    by simp
  show "unpack2 (split_first (CHR '':'') (sd @ '':'' @ st)) = Inr (sd, st)"
    using split_first_sep [OF assms(2), of st] by simp
  show "unpack2 (split_first (CHR '':'') (td @ '':'' @ tt)) = Inr (td, tt)"
    using split_first_sep [OF assms(3), of tt] by simp
qed

lemma build_same_day:
  assumes "CHR ''-'' \<notin> set (d @ st @ tt)" and "CHR '':'' \<notin> set d"
    and "build d = Inr wd" and "get_time st = Inr t1" and "get_time tt = Inr t2"
  shows "build_schedule_from_maintenance_window build get_time
           (d @ '':'' @ st @ ''-'' @ d @ '':'' @ tt)
         = Inr \<lparr>schedule_name = MAINTENANCE_SCHEDULE_NAME,
                periods = [\<lparr>period = \<lparr>period_name = MAINTENANCE_PERIOD_NAME,
                                       begintime = t1, endtime = t2, weekdays = wd\<rparr>,
                            instancetype = None\<rparr>],
                timezone = ''UTC'', enforced = True\<rparr>"
proof -
  have c: "CHR ''-'' \<notin> set (d @ st @ d @ tt)" using assms(1) by auto
  note p = window_parts [OF c assms(2) assms(2)]
  show ?thesis
    unfolding build_schedule_from_maintenance_window_def
    by (simp only: p sum.case prod.case assms(3-5) if_True refl)
qed

lemma build_fixed_fields:
  "build_schedule_from_maintenance_window build get_time s = Inr sch \<Longrightarrow>
     schedule_name sch = MAINTENANCE_SCHEDULE_NAME \<and> timezone sch = ''UTC'' \<and> enforced sch"
  unfolding build_schedule_from_maintenance_window_def
  by (auto split: sum.splits prod.splits if_splits)

lemma build_cross_day:
  assumes "CHR ''-'' \<notin> set (sd @ st @ td @ tt)"
    and "CHR '':'' \<notin> set sd" and "CHR '':'' \<notin> set td" and "sd \<noteq> td"
    and "build sd = Inr w1" and "build td = Inr w2"
    and "get_time st = Inr t1" and "get_time tt = Inr t2"
    and "get_time ''23:59'' = Inr eod" and "get_time ''00:00'' = Inr bod"
  shows "build_schedule_from_maintenance_window build get_time
           (sd @ '':'' @ st @ ''-'' @ td @ '':'' @ tt)
         = Inr \<lparr>schedule_name = MAINTENANCE_SCHEDULE_NAME,
                periods =
                  [\<lparr>period = \<lparr>period_name = MAINTENANCE_PERIOD_NAME @ ''-'' @ sd,
                               begintime = t1, endtime = eod, weekdays = w1\<rparr>,
                    instancetype = Some None\<rparr>,
                   \<lparr>period = \<lparr>period_name = MAINTENANCE_PERIOD_NAME @ ''-'' @ td,
                               begintime = bod, endtime = t2, weekdays = w2\<rparr>,
                    instancetype = Some None\<rparr>],
                timezone = ''UTC'', enforced = True\<rparr>"
proof -
  note p = window_parts [OF assms(1-3)]
  show ?thesis
    unfolding build_schedule_from_maintenance_window_def
    by (simp only: p sum.case prod.case assms(4-10) if_False)
qed

lemma mod_week_nonneg: "(0::int) \<le> z \<Longrightarrow> z < 10080 \<Longrightarrow> z mod 10080 = z"
  by simp

lemma mod_week_neg: "(-10080::int) \<le> z \<Longrightarrow> z < 0 \<Longrightarrow> z mod 10080 = z + 10080"
proof -
  assume a: "(-10080::int) \<le> z" "z < 0"
  have "z mod 10080 = (z + 10080) mod 10080" by simp
  also have "\<dots> = z + 10080" using a by (intro mod_pos_pos_trivial) auto
  finally show ?thesis .
qed

lemma next_day: "d1 < 7 \<Longrightarrow> int (Suc d1 mod 7) = (if d1 = 6 then 0 else int d1 + 1)"
  by auto

lemma adjacent_cover:
  assumes "d1 < 7" "m1 < 1440" "m2 < 1440" "d < 7" "m < 1440"
  shows "window_covers d1 m1 (Suc d1 mod 7) m2 d m \<longleftrightarrow>
           (d = d1 \<and> m1 \<le> m \<and> m \<le> 1439) \<or> (d = Suc d1 mod 7 \<and> m \<le> m2)"
proof -
  define a where "a = week_minute d1 m1"
  define b where "b = week_minute (Suc d1 mod 7) m2"
  define x where "x = week_minute d m"
  have nd: "int (Suc d1 mod 7) = (if d1 = 6 then 0 else int d1 + 1)"
    using assms(1) by (rule next_day)
  have ba: "(b - a) mod 10080 = 1440 + int m2 - int m1"
  proof (cases "d1 = 6")
    case True
    then have "b - a = int m2 - int m1 - 8640"
      by (simp add: a_def b_def week_minute_def)
    then show ?thesis using mod_week_neg [of "b - a"] assms by simp
  next
    case False
    then have "b - a = 1440 + int m2 - int m1"
      by (simp add: a_def b_def week_minute_def nd)
    then show ?thesis using mod_week_nonneg [of "b - a"] assms by simp
  qed
  have xa: "(x - a) mod 10080 = (if a \<le> x then x - a else x - a + 10080)"
  proof (cases "a \<le> x")
    case True
    then show ?thesis using mod_week_nonneg [of "x - a"] assms
      by (simp add: a_def x_def week_minute_def)
  next
    case False
    then show ?thesis using mod_week_neg [of "x - a"] assms
      by (simp add: a_def x_def week_minute_def)
  qed
  have deq: "d = Suc d1 mod 7 \<longleftrightarrow> int d = (if d1 = 6 then 0 else int d1 + 1)"
    using nd by (metis of_nat_eq_iff)
  show ?thesis
    unfolding window_covers_def a_def [symmetric] b_def [symmetric] x_def [symmetric] ba xa deq
    using assms unfolding a_def x_def week_minute_def
    by (cases "d1 = 6"; cases "d < d1"; cases "d = d1"; cases "d = Suc d1")
       (auto split: if_splits)
qed

text \<open>
  C2 (amended): a window \<open>sd:st-td:tt\<close> whose weekday tokens differ gives a schedule
  with exactly two periods, from the parsed start time to the parsed 23:59 on the start
  weekday and from the parsed 00:00 to the parsed stop time on the stop weekday. When
  the stop weekday is the day after the start weekday, the two periods read as closed
  minute intervals cover the window from start to stop exactly, and no minute twice.
\<close>

theorem cross_day_two_periods:
  assumes "CHR ''-'' \<notin> set (sd @ st @ td @ tt)"
    and "CHR '':'' \<notin> set sd" and "CHR '':'' \<notin> set td" and "sd \<noteq> td"
    and "build sd = Inr w1" and "build td = Inr w2"
    and "get_time st = Inr t1" and "get_time tt = Inr t2"
    and "get_time ''23:59'' = Inr eod" and "get_time ''00:00'' = Inr bod"
    and p1: "p1 = \<lparr>period_name = MAINTENANCE_PERIOD_NAME @ ''-'' @ sd,
                    begintime = t1, endtime = eod, weekdays = w1\<rparr>"
    and p2: "p2 = \<lparr>period_name = MAINTENANCE_PERIOD_NAME @ ''-'' @ td,
                    begintime = bod, endtime = t2, weekdays = w2\<rparr>"
  shows "build_schedule_from_maintenance_window build get_time
           (sd @ '':'' @ st @ ''-'' @ td @ '':'' @ tt)
         = Inr \<lparr>schedule_name = MAINTENANCE_SCHEDULE_NAME,
                periods = [\<lparr>period = p1, instancetype = Some None\<rparr>,
                           \<lparr>period = p2, instancetype = Some None\<rparr>],
                timezone = ''UTC'', enforced = True\<rparr>
       \<and> (d1 < 7 \<and> minute_of t1 < 1440 \<and> minute_of t2 < 1440
            \<and> minute_of eod = 1439 \<and> minute_of bod = 0
            \<and> (\<forall>d. on_day w1 d = (d = d1)) \<and> (\<forall>d. on_day w2 d = (d = Suc d1 mod 7))
          \<longrightarrow> (\<forall>d m. d < 7 \<and> m < 1440 \<longrightarrow>
                (window_covers d1 (minute_of t1) (Suc d1 mod 7) (minute_of t2) d m
                   = (period_covers minute_of on_day p1 d m
                      \<or> period_covers minute_of on_day p2 d m))
                \<and> \<not> (period_covers minute_of on_day p1 d m
                       \<and> period_covers minute_of on_day p2 d m)))"
proof (intro conjI impI allI)
  show "build_schedule_from_maintenance_window build get_time
           (sd @ '':'' @ st @ ''-'' @ td @ '':'' @ tt)
         = Inr \<lparr>schedule_name = MAINTENANCE_SCHEDULE_NAME,
                periods = [\<lparr>period = p1, instancetype = Some None\<rparr>,
                           \<lparr>period = p2, instancetype = Some None\<rparr>],
                timezone = ''UTC'', enforced = True\<rparr>"
    unfolding p1 p2 using assms(1-10) by (rule build_cross_day)
next
  fix d m :: nat
  assume h: "d1 < 7 \<and> minute_of t1 < 1440 \<and> minute_of t2 < 1440
            \<and> minute_of eod = 1439 \<and> minute_of bod = 0
            \<and> (\<forall>d. on_day w1 d = (d = d1)) \<and> (\<forall>d. on_day w2 d = (d = Suc d1 mod 7))"
    and dm: "d < 7 \<and> m < 1440"
  from h dm have c: "window_covers d1 (minute_of t1) (Suc d1 mod 7) (minute_of t2) d m
      \<longleftrightarrow> (d = d1 \<and> minute_of t1 \<le> m \<and> m \<le> 1439) \<or> (d = Suc d1 mod 7 \<and> m \<le> minute_of t2)"
    by (intro adjacent_cover) auto
  show "window_covers d1 (minute_of t1) (Suc d1 mod 7) (minute_of t2) d m
          = (period_covers minute_of on_day p1 d m \<or> period_covers minute_of on_day p2 d m)"
    unfolding c using h by (simp add: period_covers_def p1 p2)
  have "d1 \<noteq> Suc d1 mod 7" using h by presburger
  then show "\<not> (period_covers minute_of on_day p1 d m \<and> period_covers minute_of on_day p2 d m)"
    using h by (auto simp: period_covers_def p1 p2)
qed

theorem cross_day_two_periods_witness:
  "build_schedule_from_maintenance_window weekday_token hhmm_time ''Mon:23:30-Tue:01:00''
     = Inr \<lparr>schedule_name = MAINTENANCE_SCHEDULE_NAME,
            periods =
              [\<lparr>period = \<lparr>period_name = MAINTENANCE_PERIOD_NAME @ ''-Mon'',
                           begintime = 1410, endtime = 1439, weekdays = [0]\<rparr>,
                instancetype = Some None\<rparr>,
               \<lparr>period = \<lparr>period_name = MAINTENANCE_PERIOD_NAME @ ''-Tue'',
                           begintime = 0, endtime = 60, weekdays = [1]\<rparr>,
                instancetype = Some None\<rparr>],
            timezone = ''UTC'', enforced = True\<rparr>
   \<and> window_covers 0 1410 1 60 0 1420
   \<and> period_covers id in_weekdays
        \<lparr>period_name = MAINTENANCE_PERIOD_NAME @ ''-Mon'',
         begintime = 1410, endtime = 1439, weekdays = [0]\<rparr> 0 1420
   \<and> \<not> period_covers id in_weekdays
        \<lparr>period_name = MAINTENANCE_PERIOD_NAME @ ''-Tue'',
         begintime = 0, endtime = 60, weekdays = [1]\<rparr> 0 1420"
  using cross_day_two_periods [of "''Mon''" "''23:30''" "''Tue''" "''01:00''"
          weekday_token "[0]" "[1]" hhmm_time 1410 60 1439 0
          "\<lparr>period_name = MAINTENANCE_PERIOD_NAME @ ''-Mon'',
            begintime = 1410, endtime = 1439, weekdays = [0]\<rparr>"
          "\<lparr>period_name = MAINTENANCE_PERIOD_NAME @ ''-Tue'',
            begintime = 0, endtime = 60, weekdays = [1]\<rparr>"
          0 id in_weekdays]
  by (simp add: weekday_token_def weekday_names_def is_digit_def digit_val_def
        in_weekdays_def period_covers_def window_covers_def week_minute_def)

text \<open>
  C2 as stated fails: the tokens of \<open>Mon:23:30-Wed:01:00\<close> differ, the window runs
  through Tuesday, and neither of the two periods covers Tuesday 12:00.
\<close>

theorem cross_day_gap_counterexample:
  "build_schedule_from_maintenance_window weekday_token hhmm_time ''Mon:23:30-Wed:01:00''
     = Inr \<lparr>schedule_name = MAINTENANCE_SCHEDULE_NAME,
            periods =
              [\<lparr>period = \<lparr>period_name = MAINTENANCE_PERIOD_NAME @ ''-Mon'',
                           begintime = 1410, endtime = 1439, weekdays = [0]\<rparr>,
                instancetype = Some None\<rparr>,
               \<lparr>period = \<lparr>period_name = MAINTENANCE_PERIOD_NAME @ ''-Wed'',
                           begintime = 0, endtime = 60, weekdays = [2]\<rparr>,
                instancetype = Some None\<rparr>],
            timezone = ''UTC'', enforced = True\<rparr>
   \<and> window_covers 0 1410 2 60 1 720
   \<and> \<not> period_covers id in_weekdays
        \<lparr>period_name = MAINTENANCE_PERIOD_NAME @ ''-Mon'',
         begintime = 1410, endtime = 1439, weekdays = [0]\<rparr> 1 720
   \<and> \<not> period_covers id in_weekdays
        \<lparr>period_name = MAINTENANCE_PERIOD_NAME @ ''-Wed'',
         begintime = 0, endtime = 60, weekdays = [2]\<rparr> 1 720"
  by (simp add: build_schedule_from_maintenance_window_def split_first_def
        weekday_token_def weekday_names_def is_digit_def digit_val_def
        in_weekdays_def period_covers_def window_covers_def week_minute_def)

text \<open>
  C3: a window \<open>d:st-d:tt\<close> with one weekday token gives a schedule with exactly one
  period, from the parsed start time to the parsed stop time on that weekday, whatever
  the order of the two times; every schedule the builder returns has the fixed name,
  the timezone UTC and \<open>enforced = True\<close>.
\<close>

theorem same_day_single_period:
  assumes "CHR ''-'' \<notin> set (d @ st @ tt)" and "CHR '':'' \<notin> set d"
    and "build d = Inr wd" and "get_time st = Inr t1" and "get_time tt = Inr t2"
  shows "build_schedule_from_maintenance_window build get_time
           (d @ '':'' @ st @ ''-'' @ d @ '':'' @ tt)
         = Inr \<lparr>schedule_name = MAINTENANCE_SCHEDULE_NAME,
                periods = [\<lparr>period = \<lparr>period_name = MAINTENANCE_PERIOD_NAME,
                                       begintime = t1, endtime = t2, weekdays = wd\<rparr>,
                            instancetype = None\<rparr>],
                timezone = ''UTC'', enforced = True\<rparr>
       \<and> (\<forall>s sch. build_schedule_from_maintenance_window build get_time s = Inr sch \<longrightarrow>
             schedule_name sch = MAINTENANCE_SCHEDULE_NAME \<and> timezone sch = ''UTC''
             \<and> enforced sch)"
proof (intro conjI allI impI)
  show "build_schedule_from_maintenance_window build get_time
           (d @ '':'' @ st @ ''-'' @ d @ '':'' @ tt)
         = Inr \<lparr>schedule_name = MAINTENANCE_SCHEDULE_NAME,
                periods = [\<lparr>period = \<lparr>period_name = MAINTENANCE_PERIOD_NAME,
                                       begintime = t1, endtime = t2, weekdays = wd\<rparr>,
                            instancetype = None\<rparr>],
                timezone = ''UTC'', enforced = True\<rparr>"
    using assms by (rule build_same_day)
next
  fix s sch
  assume r: "build_schedule_from_maintenance_window build get_time s = Inr sch"
  show "schedule_name sch = MAINTENANCE_SCHEDULE_NAME"
    and "timezone sch = ''UTC''" and "enforced sch"
    using build_fixed_fields [OF r] by simp_all
qed

theorem same_day_single_period_witness:
  "build_schedule_from_maintenance_window weekday_token hhmm_time ''Mon:10:00-Mon:09:00''
     = Inr \<lparr>schedule_name = MAINTENANCE_SCHEDULE_NAME,
            periods = [\<lparr>period = \<lparr>period_name = MAINTENANCE_PERIOD_NAME,
                                   begintime = 600, endtime = 540, weekdays = [0]\<rparr>,
                        instancetype = None\<rparr>],
            timezone = ''UTC'', enforced = True\<rparr>
   \<and> schedule_name \<lparr>schedule_name = MAINTENANCE_SCHEDULE_NAME,
            periods = [\<lparr>period = \<lparr>period_name = MAINTENANCE_PERIOD_NAME,
                                   begintime = 600 :: nat, endtime = 540, weekdays = [0 :: nat]\<rparr>,
                        instancetype = None\<rparr>],
            timezone = ''UTC'', enforced = True\<rparr> = MAINTENANCE_SCHEDULE_NAME"
  using same_day_single_period [of "''Mon''" "''10:00''" "''09:00''"
          weekday_token "[0]" hhmm_time 600 540]
  by (simp add: weekday_token_def weekday_names_def is_digit_def digit_val_def)
section \<open>Properties of the validation of tag values\<close>

lemma class_allowed:
  "list_ex (\<lambda>i. item_matches i c) RESTRICTED_ECS_TAG_VALUE_SET_CHARACTERS = allowed_char c"
  by (auto simp: RESTRICTED_ECS_TAG_VALUE_SET_CHARACTERS_def allowed_char_def is_letter_def
        is_digit_def)

lemma space_valid: "allowed_char (CHR '' '') \<and> CHR '' '' \<noteq> CHR 0x0A"
  by (simp add: allowed_char_def is_space_def)

lemma sanitise_value:
  "str_replace (CHR 0x0A) '' ''
     (re_sub_negated_class RESTRICTED_ECS_TAG_VALUE_SET_CHARACTERS '' '' s)
   = map sanitise_char s"
  by (induction s)
     (simp_all add: str_replace_def re_sub_negated_class_def class_allowed sanitise_char_def)

lemma sanitise_char_idem: "sanitise_char (sanitise_char c) = sanitise_char c"
  using space_valid by (simp add: sanitise_char_def)

lemma sanitise_char_valid:
  "allowed_char (sanitise_char c) \<and> sanitise_char c \<noteq> CHR 0x0A"
  using space_valid by (simp add: sanitise_char_def)

lemma valid_value_sanitised: "valid_value (map sanitise_char s)"
  by (induction s) (simp_all add: valid_value_def sanitise_char_valid)

lemma valid_value_fixed: "valid_value s \<Longrightarrow> map sanitise_char s = s"
  by (induction s) (simp_all add: valid_value_def sanitise_char_def)

lemma tag_value_update: "tag_value (AList.update ''value'' v t) = v"
  by (simp add: tag_value_def dict_get_default_def update_conv')

lemma validate_result: "fst (validate_ecs_tag_values ts) = map validate_tag ts"
  by (induction ts)
     (simp_all add: Let_def split_beta sanitise_value validate_tag_def tag_value_def)

lemma validate_warnings:
  "snd (validate_ecs_tag_values ts)
     = map tag_warning (filter (\<lambda>t. map sanitise_char (tag_value t) \<noteq> tag_value t) ts)"
  by (induction ts)
     (simp_all add: Let_def split_beta sanitise_value tag_warning_def tag_value_def)

lemma validate_tag_without_value: "map_of t ''value'' = None \<Longrightarrow> validate_tag t = t"
  by (simp add: validate_tag_def tag_value_def dict_get_default_def)

lemma tag_value_validate_tag: "tag_value (validate_tag t) = map sanitise_char (tag_value t)"
  by (simp add: validate_tag_def tag_value_update)

lemma validate_tag_idem: "validate_tag (validate_tag t) = validate_tag t"
proof -
  have "map sanitise_char (tag_value (validate_tag t)) = tag_value (validate_tag t)"
    by (simp add: tag_value_validate_tag sanitise_char_idem)
  then show ?thesis by (simp add: validate_tag_def [of "validate_tag t"])
qed

lemma validate_tag_valid: "valid_value (tag_value t) \<Longrightarrow> validate_tag t = t"
  by (simp add: validate_tag_def valid_value_fixed)

text \<open>
  C8: validating a tag list twice gives the tag list that validating it once gives
  (and logs no warning the second time); a tag list whose values are all valid is
  returned as it is, without a warning.
\<close>

theorem validate_idempotent:
  "fst (validate_ecs_tag_values (fst (validate_ecs_tag_values ts)))
     = fst (validate_ecs_tag_values ts)
   \<and> snd (validate_ecs_tag_values (fst (validate_ecs_tag_values ts))) = []
   \<and> (list_all (\<lambda>t. valid_value (tag_value t)) ts \<longrightarrow>
        validate_ecs_tag_values ts = (ts, []))"
proof (intro conjI impI)
  show "fst (validate_ecs_tag_values (fst (validate_ecs_tag_values ts)))
     = fst (validate_ecs_tag_values ts)"
    by (simp add: validate_result validate_tag_idem)
  show "snd (validate_ecs_tag_values (fst (validate_ecs_tag_values ts))) = []"
    by (simp add: validate_result validate_warnings filter_empty_conv
          tag_value_validate_tag sanitise_char_idem)
  assume v: "list_all (\<lambda>t. valid_value (tag_value t)) ts"
  then have "map validate_tag ts = ts"
    by (induction ts) (simp_all add: validate_tag_valid)
  moreover from v have
    "filter (\<lambda>t. map sanitise_char (tag_value t) \<noteq> tag_value t) ts = []"
    by (induction ts) (simp_all add: valid_value_fixed)
  ultimately show "validate_ecs_tag_values ts = (ts, [])"
    by (simp add: prod_eq_iff validate_result validate_warnings)
qed

text \<open>
  What validation does to the entry under the key \<open>value\<close>, the only one it reads: it is
  sanitised character by character, a character outside the class of the pattern and a
  newline become a space, every other character stays. A warning is logged for exactly
  the records whose entry changed, and the entry is valid afterwards. A record without
  the key \<open>value\<close> counts as having the empty value and is returned as it is.
\<close>

lemma validate_value_entries:
  "fst (validate_ecs_tag_values ts) = map validate_tag ts
   \<and> snd (validate_ecs_tag_values ts)
       = map tag_warning (filter (\<lambda>t. tag_value (validate_tag t) \<noteq> tag_value t) ts)
   \<and> map tag_value (fst (validate_ecs_tag_values ts))
       = map (\<lambda>t. map sanitise_char (tag_value t)) ts
   \<and> list_all (\<lambda>t. valid_value (tag_value t)) (fst (validate_ecs_tag_values ts))"
proof (intro conjI)
  show "fst (validate_ecs_tag_values ts) = map validate_tag ts"
    by (rule validate_result)
  show "snd (validate_ecs_tag_values ts)
       = map tag_warning (filter (\<lambda>t. tag_value (validate_tag t) \<noteq> tag_value t) ts)"
    by (simp add: validate_warnings tag_value_validate_tag)
  show "map tag_value (fst (validate_ecs_tag_values ts))
       = map (\<lambda>t. map sanitise_char (tag_value t)) ts"
    by (simp add: validate_result tag_value_validate_tag)
  show "list_all (\<lambda>t. valid_value (tag_value t)) (fst (validate_ecs_tag_values ts))"
    by (simp add: validate_result list_all_iff tag_value_validate_tag valid_value_sanitised)
qed

theorem validate_idempotent_witness:
  "list_all (\<lambda>t. valid_value (tag_value t)) [[(''key'', ''env''), (''value'', ''a b_c'')]]
   \<and> validate_ecs_tag_values [[(''key'', ''env''), (''value'', ''a b_c'')]]
       = ([[(''key'', ''env''), (''value'', ''a b_c'')]], [])
   \<and> fst (validate_ecs_tag_values
             (fst (validate_ecs_tag_values [[(''key'', ''env''), (''value'', ''a#b'')]])))
       = [[(''key'', ''env''), (''value'', ''a b'')]]"
  using validate_idempotent [of "[[(''key'', ''env''), (''value'', ''a b_c'')]]"]
    validate_idempotent [of "[[(''key'', ''env''), (''value'', ''a#b'')]]"]
  by (simp add: valid_value_def tag_value_def dict_get_default_def allowed_char_def
        is_letter_def is_digit_def is_space_def re_sub_negated_class_def str_replace_def
        RESTRICTED_ECS_TAG_VALUE_SET_CHARACTERS_def Let_def)

section \<open>Properties of the decimal text of integers\<close>

lemma digit_chars_table:
  "list_all (\<lambda>n. plain_digit (digit_char n) \<and> digit_val (digit_char n) = n) [0..<10]"
  by code_simp

lemma digit_char_facts:
  assumes "n < 10"
  shows "plain_digit (digit_char n)" and "digit_val (digit_char n) = n"
proof -
  have "n \<in> set [0..<10]" using assms by simp
  with digit_chars_table
  have "plain_digit (digit_char n) \<and> digit_val (digit_char n) = n"
    unfolding list_all_iff by blast
  then show "plain_digit (digit_char n)" and "digit_val (digit_char n) = n" by simp_all
qed

lemma nat_digits_plain: "nat_digits n \<noteq> [] \<and> list_all plain_digit (nat_digits n)"
proof (induction n rule: nat_digits.induct)
  case (1 n)
  show ?case
  proof (cases "n < 10")
    case True
    then show ?thesis
      using digit_char_facts [of n] by (simp add: nat_digits.simps [of n])
  next
    case False
    then show ?thesis
      using 1 digit_char_facts [of "n mod 10"]
      by (simp add: nat_digits.simps [of n])
  qed
qed

lemma digits_value_snoc:
  "c \<noteq> CHR ''_'' \<Longrightarrow> digits_value (ds @ [c]) = 10 * digits_value ds + digit_val c"
  by (simp add: digits_value_def)

lemma digits_value_nat_digits: "digits_value (nat_digits n) = n"
proof (induction n rule: nat_digits.induct)
  case (1 n)
  show ?case
  proof (cases "n < 10")
    case True
    then show ?thesis
      using digit_char_facts [of n]
      by (simp add: nat_digits.simps [of n] digits_value_def plain_digit_def)
  next
    case False
    then show ?thesis
      using 1 digit_char_facts [of "n mod 10"]
      by (simp add: nat_digits.simps [of n] digits_value_snoc plain_digit_def)
  qed
qed

lemma digits_ok_plain: "ds \<noteq> [] \<Longrightarrow> list_all plain_digit ds \<Longrightarrow> digits_ok ds"
  by (induction ds rule: digits_ok.induct) (auto simp: plain_digit_def)

lemma dropWhile_plain:
  "list_all (\<lambda>c. \<not> is_int_space c) s \<Longrightarrow> dropWhile is_int_space s = s"
  by (cases s) simp_all

lemma strip_no_space: "list_all (\<lambda>c. \<not> is_int_space c) s \<Longrightarrow> int_strip s = s"
proof -
  assume a: "list_all (\<lambda>c. \<not> is_int_space c) s"
  then have "list_all (\<lambda>c. \<not> is_int_space c) (rev s)" by (simp add: list_all_iff)
  then show ?thesis using a by (simp add: int_strip_def dropWhile_plain)
qed

lemma py_int_str_int: "py_int (str_int n) = Inr n"
proof -
  define k where "k = nat \<bar>n\<bar>"
  have p: "nat_digits k \<noteq> []" "list_all plain_digit (nat_digits k)"
    using nat_digits_plain [of k] by simp_all
  then obtain c cs where cs: "nat_digits k = c # cs" by (cases "nat_digits k") auto
  have ns: "list_all (\<lambda>c. \<not> is_int_space c) (nat_digits k)"
    using p(2) by (simp add: list_all_iff plain_digit_def)
  have ok: "digits_ok (nat_digits k)" using p by (rule digits_ok_plain)
  have c: "c \<noteq> CHR ''-''" "c \<noteq> CHR ''+''"
    using p(2) cs by (simp_all add: plain_digit_def)
  show ?thesis
  proof (cases "n < 0")
    case True
    then have s: "str_int n = CHR ''-'' # nat_digits k" and kn: "- int k = n"
      by (simp_all add: str_int_def k_def)
    have "\<not> is_int_space (CHR ''-'')" by (simp add: is_int_space_def)
    then have "int_strip (str_int n) = CHR ''-'' # nat_digits k"
      using ns by (simp add: s strip_no_space)
    then show ?thesis
      using ok kn by (simp add: py_int_def digits_value_nat_digits)
  next
    case False
    then have s: "str_int n = nat_digits k" and kn: "int k = n"
      by (simp_all add: str_int_def k_def)
    have v: "digits_value (c # cs) = k" "digits_ok (c # cs)"
      using digits_value_nat_digits [of k] ok by (simp_all add: cs)
    have "int_strip (str_int n) = c # cs"
      using ns by (simp add: s strip_no_space cs [symmetric])
    then show ?thesis
      using v c kn by (simp add: py_int_def)
  qed
qed

text \<open>
  The separators 28 to 31 are whitespace for the pattern but not for \<open>int\<close>: a text
  padded with one of them does not parse, one padded with a blank or a no-break space
  does.
\<close>

lemma py_int_padding:
  "py_int [CHR 0x1C, CHR ''4''] = Inl (ValueError [CHR 0x1C, CHR ''4''])"
  "py_int [CHR ''4'', CHR 0x1F] = Inl (ValueError [CHR ''4'', CHR 0x1F])"
  "py_int [CHR '' '', CHR ''4'', CHR 0xA0] = Inr 4"
  by (simp_all add: py_int_def int_strip_def is_int_space_def is_digit_def digits_value_def
        digit_val_def)

section \<open>Properties of tag reconciliation and of the executor\<close>

lemma logger_fields [simp]:
  "calls (logger lv m a w) = calls w" "log (logger lv m a w) = log w @ [(lv, m, a)]"
  "started_tags (logger lv m a w) = started_tags w"
  "stopped_tags (logger lv m a w) = stopped_tags w"
  by (simp_all add: logger_def)

lemma invoke_fields [simp]:
  "fst (invoke env c w) = env (calls w) c"
  "calls (snd (invoke env c w)) = calls w @ [(c, env (calls w) c)]"
  "log (snd (invoke env c w)) = log w"
  "started_tags (snd (invoke env c w)) = started_tags w"
  "stopped_tags (snd (invoke env c w)) = stopped_tags w"
  by (simp_all add: invoke_def)

lemma untag_then_tag_config [simp]:
  "started_tags (untag_then_tag env r a b wn ks ts w) = started_tags w"
  "stopped_tags (untag_then_tag env r a b wn ks ts w) = stopped_tags w"
  by (simp_all add: untag_then_tag_def split_beta Let_def split: option.splits)

lemma untag_then_tag_calls:
  "\<exists>new. calls (untag_then_tag env r a b wn ks ts w) = calls w @ new
     \<and> map fst new = tagging_calls env (arn r) ks ts (calls w)
     \<and> (\<forall>c ex. (c, Some ex) \<in> set new \<longrightarrow>
           (WARNING, wn, [Str (inst_id r), Exc ex]) \<in> set (log (untag_then_tag env r a b wn ks ts w)))"
  by (auto simp: untag_then_tag_def tagging_calls_def split_beta Let_def split: option.splits)

lemma untag_then_tag_log:
  "\<exists>new. log (untag_then_tag env r a b wn ks ts w) = log w @ new"
  by (auto simp: untag_then_tag_def split_beta Let_def split: option.splits)


lemma map_of_update_other: "k \<noteq> k' \<Longrightarrow> map_of (AList.update k' v t) k = map_of t k"
  by (simp add: update_conv')

lemma map_of_delete_other: "k \<noteq> k' \<Longrightarrow> map_of (AList.delete k' t) k = map_of t k"
  by (simp add: delete_conv')

lemma map_of_validate_tag: "k \<noteq> ''value'' \<Longrightarrow> map_of (validate_tag t) k = map_of t k"
  by (simp add: validate_tag_def map_of_update_other)

lemma has_key_validate_tag: "has_key (validate_tag t) = has_key t"
  by (simp add: has_key_def map_of_validate_tag)

lemma rename_tag_key: "has_key t \<Longrightarrow> keyed (rename_tag t)"
  by (auto simp: keyed_def has_key_def rename_tag_def update_conv' delete_conv' split: option.splits)

lemma rename_tag_renamed:
  assumes "map_of t ''Key'' = Some k" and "map_of t ''Value'' = Some v"
  shows "map_of (rename_tag t) ''key'' = Some k" and "map_of (rename_tag t) ''value'' = Some v"
    and "map_of (rename_tag t) ''Key'' = None" and "map_of (rename_tag t) ''Value'' = None"
  using assms by (simp_all add: rename_tag_def update_conv' delete_conv')

lemma rename_tag_other:
  "map_of t ''Key'' = None \<or> map_of t ''Value'' = None \<Longrightarrow> rename_tag t = t"
  by (auto simp: rename_tag_def split: option.splits)

lemma keys_of_present:
  "list_all keyed ts \<Longrightarrow> keys_of ts = Inr (map tag_key ts)"
  by (induction ts) (auto simp: keyed_def dict_item_def tag_key_def dict_get_default_def)

lemma keys_not_in_present:
  "list_all keyed ts \<Longrightarrow>
     keys_not_in ts names = Inr (filter (\<lambda>k. k \<notin> set names) (map tag_key ts))"
  by (induction ts) (auto simp: keyed_def dict_item_def tag_key_def dict_get_default_def)

lemma renamed_present:
  "list_all has_key ts \<Longrightarrow> list_all keyed (map rename_tag ts)"
  by (induction ts) (simp_all add: rename_tag_key)

lemma renamed_validated_present:
  "list_all has_key ts \<Longrightarrow>
     list_all keyed (map rename_tag (map validate_tag ts))"
  by (induction ts) (simp_all add: rename_tag_key has_key_validate_tag)

lemma captured_count_tag_key: "keyed (captured_count_tag n)"
  by (simp add: keyed_def captured_count_tag_def)

lemma tag_stopped_resource_wf:
  assumes "wf_config w"
  shows "tag_stopped_resource env r w =
           (Inr (), untag_then_tag env r ''start'' ''stop'' WARN_TAGGING_STOPPED
              (stale_start_keys w r) (stop_tag_set w r)
              (w\<lparr>log := log w @ snd (validate_ecs_tag_values (stopped_tags w)),
                 started_tags := map rename_tag (started_tags w)\<rparr>))"
proof -
  have s: "list_all keyed (stop_tag_set w r)"
    using assms renamed_validated_present [of "stopped_tags w"]
    by (simp add: stop_tag_set_def wf_config_def captured_count_tag_key)
  have t: "list_all keyed (map rename_tag (started_tags w))"
    using assms by (simp add: wf_config_def renamed_present)
  have k: "keys_of (stop_tag_set w r) = Inr (map tag_key (stop_tag_set w r))"
    using s by (rule keys_of_present)
  have n: "keys_not_in (map rename_tag (started_tags w)) (map tag_key (stop_tag_set w r))
             = Inr (stale_start_keys w r)"
    using keys_not_in_present [OF t] by (simp add: stale_start_keys_def)
  have v: "map rename_tag (fst (validate_ecs_tag_values (stopped_tags w)))
             @ [captured_count_tag (desired_count r)] = stop_tag_set w r"
    by (simp add: stop_tag_set_def validate_result)
  show ?thesis
    by (simp add: tag_stopped_resource_def split_beta Let_def v k n)
qed

lemma tag_started_instances_wf:
  assumes "wf_config w"
  shows "tag_started_instances env r w =
           (Inr (), untag_then_tag env r ''stop'' ''start'' WARN_TAGGING_STARTED
              (stale_stop_keys w) (start_tag_set w)
              (w\<lparr>log := log w @ snd (validate_ecs_tag_values (started_tags w)),
                 stopped_tags := map rename_tag (stopped_tags w)\<rparr>))"
proof -
  have s: "list_all keyed (start_tag_set w)"
    using assms renamed_validated_present [of "started_tags w"]
    by (simp add: start_tag_set_def wf_config_def)
  have t: "list_all keyed (map rename_tag (stopped_tags w))"
    using assms by (simp add: wf_config_def renamed_present)
  have k: "keys_of (start_tag_set w) = Inr (map tag_key (start_tag_set w))"
    using s by (rule keys_of_present)
  have n: "keys_not_in (map rename_tag (stopped_tags w)) (map tag_key (start_tag_set w))
             = Inr (stale_stop_keys w)"
    using keys_not_in_present [OF t] by (simp add: stale_stop_keys_def)
  have v: "map rename_tag (fst (validate_ecs_tag_values (started_tags w))) = start_tag_set w"
    by (simp add: start_tag_set_def validate_result)
  show ?thesis
    by (simp add: tag_started_instances_def split_beta Let_def v k n)
qed

lemma tag_stopped_resource_config:
  "started_tags (snd (tag_stopped_resource env r w)) = map rename_tag (started_tags w)"
  "stopped_tags (snd (tag_stopped_resource env r w)) = stopped_tags w"
  by (simp_all add: tag_stopped_resource_def split_beta Let_def split: sum.splits)

lemma tag_started_instances_config:
  "stopped_tags (snd (tag_started_instances env r w)) = map rename_tag (stopped_tags w)"
  "started_tags (snd (tag_started_instances env r w)) = started_tags w"
  by (simp_all add: tag_started_instances_def split_beta Let_def split: sum.splits)

lemma tag_stopped_resource_calls:
  "\<exists>new. calls (snd (tag_stopped_resource env r w)) = calls w @ new"
proof -
  have "\<And>ks ts w1. calls w1 = calls w \<Longrightarrow>
          \<exists>new. calls (untag_then_tag env r ''start'' ''stop'' WARN_TAGGING_STOPPED ks ts w1)
                  = calls w @ new"
    using untag_then_tag_calls by metis
  then show ?thesis
    by (auto simp: tag_stopped_resource_def split_beta Let_def split: sum.splits)
qed

lemma tag_started_instances_calls:
  "\<exists>new. calls (snd (tag_started_instances env r w)) = calls w @ new"
proof -
  have "\<And>ks ts w1. calls w1 = calls w \<Longrightarrow>
          \<exists>new. calls (untag_then_tag env r ''stop'' ''start'' WARN_TAGGING_STARTED ks ts w1)
                  = calls w @ new"
    using untag_then_tag_calls by metis
  then show ?thesis
    by (auto simp: tag_started_instances_def split_beta Let_def split: sum.splits)
qed

lemma stop_resource_calls:
  "\<exists>new. calls (snd (stop_resource env r w))
           = calls w @ (UpdateService (cluster_arn r) (arn r) 0,
                        env (calls w) (UpdateService (cluster_arn r) (arn r) 0)) # new"
proof (cases "env (calls w) (UpdateService (cluster_arn r) (arn r) 0)")
  case None
  then show ?thesis
    using tag_stopped_resource_calls
            [of env r "snd (invoke env (UpdateService (cluster_arn r) (arn r) 0) w)"]
    by (auto simp: stop_resource_def invoke_def)
next
  case (Some ex)
  then show ?thesis by (simp add: stop_resource_def invoke_def)
qed

lemma start_resource_calls:
  assumes "map_of (tags r) ''ScheduledLastDesiredCount'' = Some s" and "py_int s = Inr n"
  shows "\<exists>new. calls (snd (start_resource env r w))
           = calls w @ (UpdateService (cluster_arn r) (arn r) n,
                        env (calls w) (UpdateService (cluster_arn r) (arn r) n)) # new"
proof (cases "env (calls w) (UpdateService (cluster_arn r) (arn r) n)")
  case None
  then show ?thesis
    using tag_started_instances_calls
            [of env r "snd (invoke env (UpdateService (cluster_arn r) (arn r) n) w)"] assms
    by (auto simp: start_resource_def invoke_def dict_item_def)
next
  case (Some ex)
  then show ?thesis using assms by (simp add: start_resource_def invoke_def dict_item_def)
qed

lemma start_resource_calls_any: "\<exists>new. calls (snd (start_resource env r w)) = calls w @ new"
proof (cases "dict_item (tags r) ''ScheduledLastDesiredCount''")
  case (Inl e)
  then show ?thesis by (simp add: start_resource_def)
next
  case (Inr s)
  show ?thesis
  proof (cases "py_int s")
    case (Inl e)
    then show ?thesis using Inr by (simp add: start_resource_def)
  next
    case (Inr n)
    from \<open>dict_item (tags r) ''ScheduledLastDesiredCount'' = Inr s\<close>
    have "map_of (tags r) ''ScheduledLastDesiredCount'' = Some s"
      by (simp add: dict_item_def split: option.splits)
    from start_resource_calls [OF this Inr] show ?thesis by auto
  qed
qed

lemma stop_instances_calls: "\<exists>new. calls (snd (stop_instances env rs w)) = calls w @ new"
proof (induction rs arbitrary: w)
  case Nil
  then show ?case by simp
next
  case (Cons r rs)
  obtain res w1 where s: "stop_resource env r w = (res, w1)" by (cases "stop_resource env r w")
  obtain n1 where c1: "calls w1 = calls w @ n1"
    using stop_resource_calls [of env r w] s by auto
  show ?case
  proof (cases res)
    case (Inl ex)
    then show ?thesis using s c1 by simp
  next
    case (Inr u)
    obtain n2 where "calls (snd (stop_instances env rs w1)) = calls w1 @ n2"
      using Cons.IH by blast
    then show ?thesis using s c1 Inr by (simp add: split_beta)
  qed
qed

lemma start_instances_calls: "\<exists>new. calls (snd (start_instances env rs w)) = calls w @ new"
proof (induction rs arbitrary: w)
  case Nil
  then show ?case by simp
next
  case (Cons r rs)
  obtain res w1 where s: "start_resource env r w = (res, w1)" by (cases "start_resource env r w")
  obtain n1 where c1: "calls w1 = calls w @ n1"
    using start_resource_calls_any [of env r w] s by auto
  show ?case
  proof (cases res)
    case (Inl ex)
    then show ?thesis using s c1 by simp
  next
    case (Inr u)
    obtain n2 where "calls (snd (start_instances env rs w1)) = calls w1 @ n2"
      using Cons.IH by blast
    then show ?thesis using s c1 Inr by (simp add: split_beta)
  qed
qed

lemma stale_start_keys_set:
  "set (stale_start_keys w r)
     = tag_key ` set (map rename_tag (started_tags w)) - tag_key ` set (stop_tag_set w r)"
  by (auto simp: stale_start_keys_def)

text \<open>
  C7: with a well-formed configuration the stop tagging returns normally and its calls
  are: a tag removal for the stale start keys, issued exactly when there are any, then
  a tag application of the stop tag set, issued when that set is not empty (which it
  never is) and the removal, if made, returned. The stale start keys are exactly the
  keys of the started tags that are not keys of the stop tag set, and the stop tag set
  is the configured stopped tags, validated and renamed, with the captured desired
  count added.
\<close>

theorem stop_tag_delta:
  assumes "wf_config w"
  shows "\<exists>new w'. tag_stopped_resource env r w = (Inr (), w') \<and> calls w' = calls w @ new
     \<and> map fst new =
         (if stale_start_keys w r \<noteq> [] then [UntagResource (arn r) (stale_start_keys w r)]
          else [])
         @ (if (stale_start_keys w r = []
                \<or> env (calls w) (UntagResource (arn r) (stale_start_keys w r)) = None)
               \<and> stop_tag_set w r \<noteq> []
            then [TagResource (arn r) (stop_tag_set w r)] else [])
     \<and> set (stale_start_keys w r)
         = tag_key ` set (map rename_tag (started_tags w)) - tag_key ` set (stop_tag_set w r)
     \<and> stop_tag_set w r
         = map rename_tag (map validate_tag (stopped_tags w))
           @ [[(''key'', ''ScheduledLastDesiredCount''), (''value'', str_int (desired_count r))]]"
proof -
  define w1 where "w1 = w\<lparr>log := log w @ snd (validate_ecs_tag_values (stopped_tags w)),
                           started_tags := map rename_tag (started_tags w)\<rparr>"
  define w' where "w' = untag_then_tag env r ''start'' ''stop'' WARN_TAGGING_STOPPED
                          (stale_start_keys w r) (stop_tag_set w r) w1"
  have t: "tag_stopped_resource env r w = (Inr (), w')"
    unfolding w'_def w1_def using assms by (rule tag_stopped_resource_wf)
  have c1: "calls w1 = calls w" by (simp add: w1_def)
  obtain new where n: "calls w' = calls w1 @ new"
      "map fst new = tagging_calls env (arn r) (stale_start_keys w r) (stop_tag_set w r) (calls w1)"
    using untag_then_tag_calls
            [of env r "''start''" "''stop''" WARN_TAGGING_STOPPED "stale_start_keys w r"
               "stop_tag_set w r" w1]
    unfolding w'_def by blast
  show ?thesis
    using t n c1 stale_start_keys_set [of w r]
    by (simp add: tagging_calls_def stop_tag_set_def captured_count_tag_def)
qed

lemma example_wf: "wf_config example_world"
  by (simp add: wf_config_def example_world_def has_key_def)

lemma str_int_4: "str_int 4 = ''4''"
  by (simp add: str_int_def nat_digits.simps digit_char_def)

lemma example_stop_tag_set:
  "stop_tag_set example_world (example_service name)
     = [[(''key'', ''state''), (''value'', ''off'')],
        [(''key'', ''ScheduledLastDesiredCount''), (''value'', ''4'')]]"
  by (simp add: stop_tag_set_def example_world_def example_service_def validate_tag_def
        tag_value_def dict_get_default_def rename_tag_def captured_count_tag_def str_int_4)

lemma example_stale_start_keys:
  "stale_start_keys example_world (example_service name) = [''owner'']"
  by (simp add: stale_start_keys_def example_stop_tag_set)
     (simp add: example_world_def rename_tag_def tag_key_def dict_get_default_def)

theorem stop_tag_delta_witness:
  "wf_config example_world
   \<and> map fst (calls (snd (tag_stopped_resource never_raises (example_service ''s1'')
                            example_world)))
       = [UntagResource ''s1'' [''owner''],
          TagResource ''s1'' [[(''key'', ''state''), (''value'', ''off'')],
                              [(''key'', ''ScheduledLastDesiredCount''), (''value'', ''4'')]]]"
proof -
  obtain new w' where
    t: "tag_stopped_resource never_raises (example_service ''s1'') example_world = (Inr (), w')"
    and c: "calls w' = calls example_world @ new"
    and n: "map fst new =
         (if stale_start_keys example_world (example_service ''s1'') \<noteq> []
          then [UntagResource (arn (example_service ''s1''))
                  (stale_start_keys example_world (example_service ''s1''))]
          else [])
         @ (if (stale_start_keys example_world (example_service ''s1'') = []
                \<or> never_raises (calls example_world)
                     (UntagResource (arn (example_service ''s1''))
                        (stale_start_keys example_world (example_service ''s1''))) = None)
               \<and> stop_tag_set example_world (example_service ''s1'') \<noteq> []
            then [TagResource (arn (example_service ''s1''))
                    (stop_tag_set example_world (example_service ''s1''))] else [])"
    using stop_tag_delta [OF example_wf, of never_raises "example_service ''s1''"] by blast
  have "calls example_world = []" "arn (example_service ''s1'') = ''s1''"
    by (simp_all add: example_world_def example_service_def)
  then show ?thesis
    using t c n example_wf
    by (simp add: example_stale_start_keys example_stop_tag_set never_raises_def)
qed

lemma rename_tag_changes:
  assumes "map_of t ''Key'' \<noteq> None" and "map_of t ''Value'' \<noteq> None"
  shows "rename_tag t \<noteq> t"
proof -
  obtain k v where "map_of t ''Key'' = Some k" "map_of t ''Value'' = Some v"
    using assms by auto
  then have "map_of (rename_tag t) ''Key'' = None" by (rule rename_tag_renamed)
  then show ?thesis using assms(1) by auto
qed

lemma map_changes: "t \<in> set ts \<Longrightarrow> f t \<noteq> t \<Longrightarrow> map f ts \<noteq> ts"
  by (induction ts) auto

text \<open>
  C10: the tagging paths rename the tag records of the configuration itself. The stop
  path leaves the started tags of the configuration renamed (its stopped tags are
  untouched: it renames a validated copy of them), the start path leaves the stopped
  tags renamed (and the started tags untouched). Renaming a record with the keys \<open>Key\<close>
  and \<open>Value\<close> moves their values to \<open>key\<close> and \<open>value\<close> and removes the two keys; any
  other record stays as it is. So a list with such a record is changed by the path that
  shares it.
\<close>

theorem config_renamed_in_place:
  "started_tags (snd (tag_stopped_resource env r w)) = map rename_tag (started_tags w)
   \<and> stopped_tags (snd (tag_stopped_resource env r w)) = stopped_tags w
   \<and> stopped_tags (snd (tag_started_instances env r w)) = map rename_tag (stopped_tags w)
   \<and> started_tags (snd (tag_started_instances env r w)) = started_tags w
   \<and> (map_of t ''Key'' = Some k \<and> map_of t ''Value'' = Some v \<longrightarrow>
        map_of (rename_tag t) ''key'' = Some k \<and> map_of (rename_tag t) ''value'' = Some v
        \<and> map_of (rename_tag t) ''Key'' = None \<and> map_of (rename_tag t) ''Value'' = None)
   \<and> (map_of t ''Key'' = None \<or> map_of t ''Value'' = None \<longrightarrow> rename_tag t = t)
   \<and> (t \<in> set (started_tags w) \<and> map_of t ''Key'' \<noteq> None \<and> map_of t ''Value'' \<noteq> None \<longrightarrow>
        started_tags (snd (tag_stopped_resource env r w)) \<noteq> started_tags w)
   \<and> (t \<in> set (stopped_tags w) \<and> map_of t ''Key'' \<noteq> None \<and> map_of t ''Value'' \<noteq> None \<longrightarrow>
        stopped_tags (snd (tag_started_instances env r w)) \<noteq> stopped_tags w)"
proof (intro conjI impI)
  show "started_tags (snd (tag_stopped_resource env r w)) = map rename_tag (started_tags w)"
    and "stopped_tags (snd (tag_stopped_resource env r w)) = stopped_tags w"
    by (rule tag_stopped_resource_config)+
  show "stopped_tags (snd (tag_started_instances env r w)) = map rename_tag (stopped_tags w)"
    and "started_tags (snd (tag_started_instances env r w)) = started_tags w"
    by (rule tag_started_instances_config)+
next
  assume a: "map_of t ''Key'' = Some k \<and> map_of t ''Value'' = Some v"
  then show "map_of (rename_tag t) ''key'' = Some k" by (simp add: rename_tag_renamed)
  from a show "map_of (rename_tag t) ''value'' = Some v" by (simp add: rename_tag_renamed)
  from a show "map_of (rename_tag t) ''Key'' = None" by (simp add: rename_tag_renamed)
  from a show "map_of (rename_tag t) ''Value'' = None" by (simp add: rename_tag_renamed)
next
  assume "map_of t ''Key'' = None \<or> map_of t ''Value'' = None"
  then show "rename_tag t = t" by (rule rename_tag_other)
next
  assume a: "t \<in> set (started_tags w) \<and> map_of t ''Key'' \<noteq> None \<and> map_of t ''Value'' \<noteq> None"
  then have "rename_tag t \<noteq> t" by (intro rename_tag_changes) simp_all
  with a have "map rename_tag (started_tags w) \<noteq> started_tags w"
    by (intro map_changes [of t]) simp_all
  then show "started_tags (snd (tag_stopped_resource env r w)) \<noteq> started_tags w"
    by (simp add: tag_stopped_resource_config)
next
  assume a: "t \<in> set (stopped_tags w) \<and> map_of t ''Key'' \<noteq> None \<and> map_of t ''Value'' \<noteq> None"
  then have "rename_tag t \<noteq> t" by (intro rename_tag_changes) simp_all
  with a have "map rename_tag (stopped_tags w) \<noteq> stopped_tags w"
    by (intro map_changes [of t]) simp_all
  then show "stopped_tags (snd (tag_started_instances env r w)) \<noteq> stopped_tags w"
    by (simp add: tag_started_instances_config)
qed

theorem config_renamed_in_place_witness:
  "started_tags (snd (tag_stopped_resource never_raises (example_service ''s1'') example_world))
     = [[(''key'', ''state''), (''value'', ''on'')], [(''key'', ''owner''), (''value'', ''ops'')]]
   \<and> started_tags (snd (tag_stopped_resource never_raises (example_service ''s1'') example_world))
       \<noteq> started_tags example_world
   \<and> stopped_tags (snd (tag_started_instances never_raises (example_service ''s1'') example_world))
     = [[(''key'', ''state''), (''value'', ''off'')]]
   \<and> stopped_tags (snd (tag_started_instances never_raises (example_service ''s1'') example_world))
       \<noteq> stopped_tags example_world"
  using config_renamed_in_place
          [of never_raises "example_service ''s1''" example_world
              "[(''Key'', ''state''), (''Value'', ''on'')]" "''state''" "''on''"]
        config_renamed_in_place
          [of never_raises "example_service ''s1''" example_world
              "[(''Key'', ''state''), (''Value'', ''off'')]" "''state''" "''off''"]
  by (simp add: example_world_def rename_tag_def)

lemma tag_sets_depend_on_config:
  assumes "started_tags w1 = started_tags w" and "stopped_tags w1 = stopped_tags w"
  shows "stop_tag_set w1 r = stop_tag_set w r" and "stale_start_keys w1 r = stale_start_keys w r"
    and "start_tag_set w1 = start_tag_set w" and "stale_stop_keys w1 = stale_stop_keys w"
    and "wf_config w1 = wf_config w"
  using assms
  by (simp_all add: stop_tag_set_def stale_start_keys_def start_tag_set_def stale_stop_keys_def
        wf_config_def)

lemma untag_then_tag_never:
  assumes "\<forall>h c. env h c = None"
  shows "calls (untag_then_tag env r a b wn ks ts w)
           = calls w @ (if ks \<noteq> [] then [(UntagResource (arn r) ks, None)] else [])
                     @ (if ts \<noteq> [] then [(TagResource (arn r) ts, None)] else [])"
  using assms by (simp add: untag_then_tag_def invoke_def split_beta)

lemma captured_in_stop_tag_set:
  "[(''key'', ''ScheduledLastDesiredCount''), (''value'', str_int (desired_count r))]
     \<in> set (stop_tag_set w r)"
  by (simp add: stop_tag_set_def captured_count_tag_def)

lemma stop_resource_never:
  assumes "\<forall>h c. env h c = None" and "wf_config w"
  shows "\<exists>w'. stop_resource env r w = (Inr (), w')
           \<and> calls w' = calls w @ (UpdateService (cluster_arn r) (arn r) 0, None)
                 # (if stale_start_keys w r \<noteq> []
                    then [(UntagResource (arn r) (stale_start_keys w r), None)] else [])
                 @ [(TagResource (arn r) (stop_tag_set w r), None)]"
proof -
  define w1 where "w1 = snd (invoke env (UpdateService (cluster_arn r) (arn r) 0) w)"
  have i: "invoke env (UpdateService (cluster_arn r) (arn r) 0) w = (None, w1)"
    using assms(1) by (simp add: w1_def invoke_def)
  have c: "calls w1 = calls w @ [(UpdateService (cluster_arn r) (arn r) 0, None)]"
    and s: "started_tags w1 = started_tags w" "stopped_tags w1 = stopped_tags w"
    using assms(1) by (simp_all add: w1_def)
  have wf: "wf_config w1" using assms(2) tag_sets_depend_on_config(5) [OF s] by simp
  have ne: "stop_tag_set w r \<noteq> []" by (simp add: stop_tag_set_def)
  show ?thesis
    using i c ne
    by (simp add: stop_resource_def tag_stopped_resource_wf [OF wf]
          untag_then_tag_never [OF assms(1)] tag_sets_depend_on_config [OF s])
qed

text \<open>
  C4: when no call of the client raises and the configuration is well formed, stopping
  a batch that begins with a resource of desired count \<open>n\<close> issues the resize to zero for
  it and applies the stop tag set, which holds the tag \<open>ScheduledLastDesiredCount\<close> with
  the decimal text of \<open>n\<close>. Starting a batch that begins with a resource carrying that
  tag value issues the resize to \<open>n\<close> for it, whatever the client and the world.
\<close>

theorem capture_restore_round_trip:
  assumes "\<forall>h c. env h c = None" and "wf_config w" and "desired_count r = n"
  shows "(UpdateService (cluster_arn r) (arn r) 0, None)
           \<in> set (calls (snd (stop_instances env (r # rs) w)))
       \<and> (TagResource (arn r) (stop_tag_set w r), None)
           \<in> set (calls (snd (stop_instances env (r # rs) w)))
       \<and> [(''key'', ''ScheduledLastDesiredCount''), (''value'', str_int n)]
           \<in> set (stop_tag_set w r)
       \<and> (map_of (tags r') ''ScheduledLastDesiredCount'' = Some (str_int n) \<longrightarrow>
            (UpdateService (cluster_arn r') (arn r') n,
             env' (calls w0) (UpdateService (cluster_arn r') (arn r') n))
              \<in> set (calls (snd (start_instances env' (r' # rs') w0))))"
proof (intro conjI impI)
  obtain w' where s: "stop_resource env r w = (Inr (), w')"
    and c: "calls w' = calls w @ (UpdateService (cluster_arn r) (arn r) 0, None)
                 # (if stale_start_keys w r \<noteq> []
                    then [(UntagResource (arn r) (stale_start_keys w r), None)] else [])
                 @ [(TagResource (arn r) (stop_tag_set w r), None)]"
    using stop_resource_never [OF assms(1,2)] by blast
  obtain ext where e: "calls (snd (stop_instances env rs w')) = calls w' @ ext"
    using stop_instances_calls by blast
  have f: "calls (snd (stop_instances env (r # rs) w)) = calls w' @ ext"
    using s e by (simp add: split_beta)
  show "(UpdateService (cluster_arn r) (arn r) 0, None)
           \<in> set (calls (snd (stop_instances env (r # rs) w)))"
    unfolding f c by simp
  show "(TagResource (arn r) (stop_tag_set w r), None)
           \<in> set (calls (snd (stop_instances env (r # rs) w)))"
    unfolding f c by simp
  show "[(''key'', ''ScheduledLastDesiredCount''), (''value'', str_int n)]
           \<in> set (stop_tag_set w r)"
    using captured_in_stop_tag_set [of r w] assms(3) by simp
next
  assume t: "map_of (tags r') ''ScheduledLastDesiredCount'' = Some (str_int n)"
  obtain new where c: "calls (snd (start_resource env' r' w0))
           = calls w0 @ (UpdateService (cluster_arn r') (arn r') n,
                        env' (calls w0) (UpdateService (cluster_arn r') (arn r') n)) # new"
    using start_resource_calls [OF t py_int_str_int] by blast
  obtain ext where e: "calls (snd (start_instances env' rs' (snd (start_resource env' r' w0))))
                         = calls (snd (start_resource env' r' w0)) @ ext"
    using start_instances_calls by blast
  show "(UpdateService (cluster_arn r') (arn r') n,
             env' (calls w0) (UpdateService (cluster_arn r') (arn r') n))
              \<in> set (calls (snd (start_instances env' (r' # rs') w0)))"
  proof (cases "start_resource env' r' w0")
    case (Pair res w1)
    then show ?thesis
      using c e by (cases res) (simp_all add: split_beta)
  qed
qed

lemma stop_instances_results:
  "\<exists>k\<le>length rs. fst (stop_instances env rs w)
                        = map (\<lambda>x. (inst_id x, STATE_STOPPED)) (take k rs)"
proof (induction rs arbitrary: w)
  case Nil
  then show ?case by simp
next
  case (Cons r rs)
  obtain res w1 where s: "stop_resource env r w = (res, w1)" by (cases "stop_resource env r w")
  show ?case
  proof (cases res)
    case (Inl ex)
    then have "fst (stop_instances env (r # rs) w)
                 = map (\<lambda>x. (inst_id x, STATE_STOPPED)) (take 0 (r # rs))"
      using s by simp
    then show ?thesis by blast
  next
    case (Inr u)
    obtain k where k: "k \<le> length rs"
        "fst (stop_instances env rs w1) = map (\<lambda>x. (inst_id x, STATE_STOPPED)) (take k rs)"
      using Cons.IH by blast
    have "fst (stop_instances env (r # rs) w)
            = map (\<lambda>x. (inst_id x, STATE_STOPPED)) (take (Suc k) (r # rs))"
      using s Inr k(2) by (simp add: split_beta)
    moreover have "Suc k \<le> length (r # rs)" using k(1) by simp
    ultimately show ?thesis by blast
  qed
qed

lemma start_instances_results:
  "\<exists>k\<le>length rs. fst (start_instances env rs w)
                        = map (\<lambda>x. (inst_id x, STATE_RUNNING)) (take k rs)"
proof (induction rs arbitrary: w)
  case Nil
  then show ?case by simp
next
  case (Cons r rs)
  obtain res w1 where s: "start_resource env r w = (res, w1)"
    by (cases "start_resource env r w")
  show ?case
  proof (cases res)
    case (Inl ex)
    then have "fst (start_instances env (r # rs) w)
                 = map (\<lambda>x. (inst_id x, STATE_RUNNING)) (take 0 (r # rs))"
      using s by simp
    then show ?thesis by blast
  next
    case (Inr u)
    obtain k where k: "k \<le> length rs"
        "fst (start_instances env rs w1) = map (\<lambda>x. (inst_id x, STATE_RUNNING)) (take k rs)"
      using Cons.IH by blast
    have "fst (start_instances env (r # rs) w)
            = map (\<lambda>x. (inst_id x, STATE_RUNNING)) (take (Suc k) (r # rs))"
      using s Inr k(2) by (simp add: split_beta)
    moreover have "Suc k \<le> length (r # rs)" using k(1) by simp
    ultimately show ?thesis by blast
  qed
qed

lemma stop_instances_append:
  "length (fst (stop_instances env pre w)) = length pre \<Longrightarrow>
     stop_instances env (pre @ rest) w
       = (fst (stop_instances env pre w)
            @ fst (stop_instances env rest (snd (stop_instances env pre w))),
          snd (stop_instances env rest (snd (stop_instances env pre w))))"
  by (induction pre arbitrary: w) (auto split: prod.splits sum.splits)

lemma start_instances_append:
  "length (fst (start_instances env pre w)) = length pre \<Longrightarrow>
     start_instances env (pre @ rest) w
       = (fst (start_instances env pre w)
            @ fst (start_instances env rest (snd (start_instances env pre w))),
          snd (start_instances env rest (snd (start_instances env pre w))))"
  by (induction pre arbitrary: w) (auto split: prod.splits sum.splits)

lemma example_service_fields:
  "inst_id (example_service name) = name" "arn (example_service name) = name"
  "cluster_arn (example_service name) = ''cluster''" "desired_count (example_service name) = 4"
  "tags (example_service name) = [(''ScheduledLastDesiredCount'', ''4'')]"
  "is_cluster (example_service name) = False"
  by (simp_all add: example_service_def)

theorem capture_restore_round_trip_witness:
  "wf_config example_world
   \<and> (UpdateService ''cluster'' ''s1'' 0, None)
       \<in> set (calls (snd (stop_instances never_raises [example_service ''s1''] example_world)))
   \<and> (TagResource ''s1'' [[(''key'', ''state''), (''value'', ''off'')],
                           [(''key'', ''ScheduledLastDesiredCount''), (''value'', ''4'')]], None)
       \<in> set (calls (snd (stop_instances never_raises [example_service ''s1''] example_world)))
   \<and> (UpdateService ''cluster'' ''s1'' 4, None)
       \<in> set (calls (snd (start_instances never_raises [example_service ''s1''] example_world)))"
proof -
  have n: "\<forall>h c. never_raises h c = None" by (simp add: never_raises_def)
  have d: "desired_count (example_service ''s1'') = 4" by (simp add: example_service_fields)
  have t: "map_of (tags (example_service ''s1'')) ''ScheduledLastDesiredCount'' = Some (str_int 4)"
    by (simp add: example_service_fields str_int_4)
  show ?thesis
    using capture_restore_round_trip
            [where env = never_raises and w = example_world and r = "example_service ''s1''"
               and n = 4 and rs = "[]" and r' = "example_service ''s1''"
               and env' = never_raises and ?w0.0 = example_world and rs' = "[]",
             OF n example_wf d]
          t example_wf n
    by (simp add: example_service_fields example_stop_tag_set del: stop_instances.simps
          start_instances.simps)
qed

text \<open>
  C5: resources are processed in input order and the results are the pairs of a prefix
  of the batch, in order. If every resource of \<open>pre\<close> is processed (one result each) and
  an exception reaches the \<open>except\<close> clause while \<open>r\<close> is processed, then the batch
  \<open>pre @ r # post\<close> yields exactly the results of \<open>pre\<close>, none for \<open>r\<close>, and leaves the
  world as it was at the exception plus the error entry: no resource of \<open>post\<close> is
  touched. This holds for \<open>stop_instances\<close> and for \<open>start_instances\<close>.
\<close>

theorem fail_fast_batch:
  "(stop_instances env pre w = (res, w1) \<and> length res = length pre
      \<and> stop_resource env r w1 = (Inl ex, w2) \<longrightarrow>
        stop_instances env (pre @ r # post) w
          = (map (\<lambda>x. (inst_id x, STATE_STOPPED)) pre,
             logger ERROR ERR_STOPPING_INSTANCE [Str (resource_kind r), Str (arn r), Exc ex] w2))
   \<and> (start_instances env pre w = (res, w1) \<and> length res = length pre
      \<and> start_resource env r w1 = (Inl ex, w2) \<longrightarrow>
        start_instances env (pre @ r # post) w
          = (map (\<lambda>x. (inst_id x, STATE_RUNNING)) pre,
             logger ERROR ERR_STARTING_INSTANCE [Str (resource_kind r), Str (arn r), Exc ex] w2))
   \<and> (\<exists>k\<le>length rs. fst (stop_instances env rs w)
                         = map (\<lambda>x. (inst_id x, STATE_STOPPED)) (take k rs))
   \<and> (\<exists>k\<le>length rs. fst (start_instances env rs w)
                         = map (\<lambda>x. (inst_id x, STATE_RUNNING)) (take k rs))"
proof (intro conjI impI)
  assume a: "stop_instances env pre w = (res, w1) \<and> length res = length pre
      \<and> stop_resource env r w1 = (Inl ex, w2)"
  then have l: "length (fst (stop_instances env pre w)) = length pre" by simp
  obtain k where k: "k \<le> length pre"
      "fst (stop_instances env pre w) = map (\<lambda>x. (inst_id x, STATE_STOPPED)) (take k pre)"
    using stop_instances_results by blast
  from k l have "k = length pre" by simp
  with k(2) a have r: "res = map (\<lambda>x. (inst_id x, STATE_STOPPED)) pre" by simp
  show "stop_instances env (pre @ r # post) w
          = (map (\<lambda>x. (inst_id x, STATE_STOPPED)) pre,
             logger ERROR ERR_STOPPING_INSTANCE [Str (resource_kind r), Str (arn r), Exc ex] w2)"
    using a r by (simp add: stop_instances_append [OF l])
next
  assume a: "start_instances env pre w = (res, w1) \<and> length res = length pre
      \<and> start_resource env r w1 = (Inl ex, w2)"
  then have l: "length (fst (start_instances env pre w)) = length pre" by simp
  obtain k where k: "k \<le> length pre"
      "fst (start_instances env pre w) = map (\<lambda>x. (inst_id x, STATE_RUNNING)) (take k pre)"
    using start_instances_results by blast
  from k l have "k = length pre" by simp
  with k(2) a have r: "res = map (\<lambda>x. (inst_id x, STATE_RUNNING)) pre" by simp
  show "start_instances env (pre @ r # post) w
          = (map (\<lambda>x. (inst_id x, STATE_RUNNING)) pre,
             logger ERROR ERR_STARTING_INSTANCE [Str (resource_kind r), Str (arn r), Exc ex] w2)"
    using a r by (simp add: start_instances_append [OF l])
next
  show "\<exists>k\<le>length rs. fst (stop_instances env rs w)
                         = map (\<lambda>x. (inst_id x, STATE_STOPPED)) (take k rs)"
    by (rule stop_instances_results)
  show "\<exists>k\<le>length rs. fst (start_instances env rs w)
                         = map (\<lambda>x. (inst_id x, STATE_RUNNING)) (take k rs)"
    by (rule start_instances_results)
qed


lemma tagging_calls_subset:
  "set (tagging_calls env a ks ts h) \<subseteq> {UntagResource a ks, TagResource a ts}"
  by (auto simp: tagging_calls_def)

lemma stop_resource_tagging_safe:
  assumes "wf_config w" and "env (calls w) (UpdateService (cluster_arn r) (arn r) 0) = None"
  shows "\<exists>w' new. stop_resource env r w = (Inr (), w')
           \<and> calls w' = calls w @ (UpdateService (cluster_arn r) (arn r) 0, None) # new
           \<and> set (map fst new) \<subseteq> {UntagResource (arn r) (stale_start_keys w r),
                                     TagResource (arn r) (stop_tag_set w r)}
           \<and> (\<forall>c ex. (c, Some ex) \<in> set new \<longrightarrow>
                 (WARNING, WARN_TAGGING_STOPPED, [Str (inst_id r), Exc ex]) \<in> set (log w'))"
proof -
  define w1 where "w1 = snd (invoke env (UpdateService (cluster_arn r) (arn r) 0) w)"
  have i: "invoke env (UpdateService (cluster_arn r) (arn r) 0) w = (None, w1)"
    using assms(2) by (simp add: w1_def invoke_def)
  have c: "calls w1 = calls w @ [(UpdateService (cluster_arn r) (arn r) 0, None)]"
    and s: "started_tags w1 = started_tags w" "stopped_tags w1 = stopped_tags w"
    using assms(2) by (simp_all add: w1_def)
  have wf: "wf_config w1" using assms(1) tag_sets_depend_on_config(5) [OF s] by simp
  define w2 where "w2 = w1\<lparr>log := log w1 @ snd (validate_ecs_tag_values (stopped_tags w1)),
                            started_tags := map rename_tag (started_tags w1)\<rparr>"
  define w' where "w' = untag_then_tag env r ''start'' ''stop'' WARN_TAGGING_STOPPED
                          (stale_start_keys w r) (stop_tag_set w r) w2"
  have t: "stop_resource env r w = (Inr (), w')"
    using i by (simp add: stop_resource_def tag_stopped_resource_wf [OF wf] w'_def w2_def
          tag_sets_depend_on_config [OF s])
  have c2: "calls w2 = calls w1" by (simp add: w2_def)
  obtain new where n: "calls w' = calls w2 @ new"
    "map fst new = tagging_calls env (arn r) (stale_start_keys w r) (stop_tag_set w r) (calls w2)"
    "\<forall>c ex. (c, Some ex) \<in> set new \<longrightarrow>
        (WARNING, WARN_TAGGING_STOPPED, [Str (inst_id r), Exc ex]) \<in> set (log w')"
    using untag_then_tag_calls
            [of env r "''start''" "''stop''" WARN_TAGGING_STOPPED "stale_start_keys w r"
               "stop_tag_set w r" w2]
    unfolding w'_def by blast
  have "calls w' = calls w @ (UpdateService (cluster_arn r) (arn r) 0, None) # new"
    using n(1) c c2 by simp
  moreover have "set (map fst new) \<subseteq> {UntagResource (arn r) (stale_start_keys w r),
                                     TagResource (arn r) (stop_tag_set w r)}"
    unfolding n(2) by (rule tagging_calls_subset)
  ultimately show ?thesis using t n(3) by blast
qed

lemma start_resource_tagging_safe:
  assumes "wf_config w" and "map_of (tags r) ''ScheduledLastDesiredCount'' = Some s"
    and "py_int s = Inr n"
    and "env (calls w) (UpdateService (cluster_arn r) (arn r) n) = None"
  shows "\<exists>w' new. start_resource env r w = (Inr (), w')
           \<and> calls w' = calls w @ (UpdateService (cluster_arn r) (arn r) n, None) # new
           \<and> set (map fst new) \<subseteq> {UntagResource (arn r) (stale_stop_keys w),
                                     TagResource (arn r) (start_tag_set w)}
           \<and> (\<forall>c ex. (c, Some ex) \<in> set new \<longrightarrow>
                 (WARNING, WARN_TAGGING_STARTED, [Str (inst_id r), Exc ex]) \<in> set (log w'))"
proof -
  define w1 where "w1 = snd (invoke env (UpdateService (cluster_arn r) (arn r) n) w)"
  have i: "invoke env (UpdateService (cluster_arn r) (arn r) n) w = (None, w1)"
    using assms(4) by (simp add: w1_def invoke_def)
  have c: "calls w1 = calls w @ [(UpdateService (cluster_arn r) (arn r) n, None)]"
    and s: "started_tags w1 = started_tags w" "stopped_tags w1 = stopped_tags w"
    using assms(4) by (simp_all add: w1_def)
  have wf: "wf_config w1" using assms(1) tag_sets_depend_on_config(5) [OF s] by simp
  define w2 where "w2 = w1\<lparr>log := log w1 @ snd (validate_ecs_tag_values (started_tags w1)),
                            stopped_tags := map rename_tag (stopped_tags w1)\<rparr>"
  define w' where "w' = untag_then_tag env r ''stop'' ''start'' WARN_TAGGING_STARTED
                          (stale_stop_keys w) (start_tag_set w) w2"
  have t: "start_resource env r w = (Inr (), w')"
    using i assms(2,3)
    by (simp add: start_resource_def dict_item_def tag_started_instances_wf [OF wf] w'_def
          w2_def tag_sets_depend_on_config [OF s])
  have c2: "calls w2 = calls w1" by (simp add: w2_def)
  obtain new where n: "calls w' = calls w2 @ new"
    "map fst new = tagging_calls env (arn r) (stale_stop_keys w) (start_tag_set w) (calls w2)"
    "\<forall>c ex. (c, Some ex) \<in> set new \<longrightarrow>
        (WARNING, WARN_TAGGING_STARTED, [Str (inst_id r), Exc ex]) \<in> set (log w')"
    using untag_then_tag_calls
            [of env r "''stop''" "''start''" WARN_TAGGING_STARTED "stale_stop_keys w"
               "start_tag_set w" w2]
    unfolding w'_def by blast
  have "calls w' = calls w @ (UpdateService (cluster_arn r) (arn r) n, None) # new"
    using n(1) c c2 by simp
  moreover have "set (map fst new) \<subseteq> {UntagResource (arn r) (stale_stop_keys w),
                                     TagResource (arn r) (start_tag_set w)}"
    unfolding n(2) by (rule tagging_calls_subset)
  ultimately show ?thesis using t n(3) by blast
qed

text \<open>
  C6: with a well-formed configuration, once the resize of a resource has returned, the
  resource is processed to its result whatever the tagging calls do: the executor
  yields its pair and goes on with the rest of the batch from the world the tagging
  left. The resize stays in the trace as returned, the calls after it are tagging calls
  only, and every one of them that raised has its warning in the log. This holds for
  the stop path and, when the captured count parses, for the start path.
\<close>

theorem tagging_failures_non_fatal:
  "(wf_config w \<and> env (calls w) (UpdateService (cluster_arn r) (arn r) 0) = None \<longrightarrow>
      (\<exists>w' new. stop_resource env r w = (Inr (), w')
         \<and> stop_instances env (r # rs) w
             = ((inst_id r, STATE_STOPPED) # fst (stop_instances env rs w'),
                snd (stop_instances env rs w'))
         \<and> calls w' = calls w @ (UpdateService (cluster_arn r) (arn r) 0, None) # new
         \<and> set (map fst new) \<subseteq> {UntagResource (arn r) (stale_start_keys w r),
                                   TagResource (arn r) (stop_tag_set w r)}
         \<and> (\<forall>c ex. (c, Some ex) \<in> set new \<longrightarrow>
               (WARNING, WARN_TAGGING_STOPPED, [Str (inst_id r), Exc ex]) \<in> set (log w'))))
   \<and> (wf_config w \<and> map_of (tags r) ''ScheduledLastDesiredCount'' = Some s
        \<and> py_int s = Inr n
        \<and> env (calls w) (UpdateService (cluster_arn r) (arn r) n) = None \<longrightarrow>
      (\<exists>w' new. start_resource env r w = (Inr (), w')
         \<and> start_instances env (r # rs) w
             = ((inst_id r, STATE_RUNNING) # fst (start_instances env rs w'),
                snd (start_instances env rs w'))
         \<and> calls w' = calls w @ (UpdateService (cluster_arn r) (arn r) n, None) # new
         \<and> set (map fst new) \<subseteq> {UntagResource (arn r) (stale_stop_keys w),
                                   TagResource (arn r) (start_tag_set w)}
         \<and> (\<forall>c ex. (c, Some ex) \<in> set new \<longrightarrow>
               (WARNING, WARN_TAGGING_STARTED, [Str (inst_id r), Exc ex]) \<in> set (log w'))))"
proof (intro conjI impI)
  assume a: "wf_config w \<and> env (calls w) (UpdateService (cluster_arn r) (arn r) 0) = None"
  then obtain w' new where t: "stop_resource env r w = (Inr (), w')"
    and r: "calls w' = calls w @ (UpdateService (cluster_arn r) (arn r) 0, None) # new"
      "set (map fst new) \<subseteq> {UntagResource (arn r) (stale_start_keys w r),
                                   TagResource (arn r) (stop_tag_set w r)}"
      "\<forall>c ex. (c, Some ex) \<in> set new \<longrightarrow>
               (WARNING, WARN_TAGGING_STOPPED, [Str (inst_id r), Exc ex]) \<in> set (log w')"
    using stop_resource_tagging_safe [of w env r] by blast
  have "stop_instances env (r # rs) w
             = ((inst_id r, STATE_STOPPED) # fst (stop_instances env rs w'),
                snd (stop_instances env rs w'))"
    using t by (simp add: split_beta)
  then show "\<exists>w' new. stop_resource env r w = (Inr (), w')
         \<and> stop_instances env (r # rs) w
             = ((inst_id r, STATE_STOPPED) # fst (stop_instances env rs w'),
                snd (stop_instances env rs w'))
         \<and> calls w' = calls w @ (UpdateService (cluster_arn r) (arn r) 0, None) # new
         \<and> set (map fst new) \<subseteq> {UntagResource (arn r) (stale_start_keys w r),
                                   TagResource (arn r) (stop_tag_set w r)}
         \<and> (\<forall>c ex. (c, Some ex) \<in> set new \<longrightarrow>
               (WARNING, WARN_TAGGING_STOPPED, [Str (inst_id r), Exc ex]) \<in> set (log w'))"
    using t r by blast
next
  assume a: "wf_config w \<and> map_of (tags r) ''ScheduledLastDesiredCount'' = Some s
        \<and> py_int s = Inr n
        \<and> env (calls w) (UpdateService (cluster_arn r) (arn r) n) = None"
  then obtain w' new where t: "start_resource env r w = (Inr (), w')"
    and r: "calls w' = calls w @ (UpdateService (cluster_arn r) (arn r) n, None) # new"
      "set (map fst new) \<subseteq> {UntagResource (arn r) (stale_stop_keys w),
                                   TagResource (arn r) (start_tag_set w)}"
      "\<forall>c ex. (c, Some ex) \<in> set new \<longrightarrow>
               (WARNING, WARN_TAGGING_STARTED, [Str (inst_id r), Exc ex]) \<in> set (log w')"
    using start_resource_tagging_safe [of w r s n env] by blast
  have "start_instances env (r # rs) w
             = ((inst_id r, STATE_RUNNING) # fst (start_instances env rs w'),
                snd (start_instances env rs w'))"
    using t by (simp add: split_beta)
  then show "\<exists>w' new. start_resource env r w = (Inr (), w')
         \<and> start_instances env (r # rs) w
             = ((inst_id r, STATE_RUNNING) # fst (start_instances env rs w'),
                snd (start_instances env rs w'))
         \<and> calls w' = calls w @ (UpdateService (cluster_arn r) (arn r) n, None) # new
         \<and> set (map fst new) \<subseteq> {UntagResource (arn r) (stale_stop_keys w),
                                   TagResource (arn r) (start_tag_set w)}
         \<and> (\<forall>c ex. (c, Some ex) \<in> set new \<longrightarrow>
               (WARNING, WARN_TAGGING_STARTED, [Str (inst_id r), Exc ex]) \<in> set (log w'))"
    using t r by blast
qed

lemmas example_eval = stop_resource_def start_resource_def tag_stopped_resource_def
  tag_started_instances_def untag_then_tag_def invoke_def logger_def example_world_def
  example_service_def tagging_raises_def resize_raises_def never_raises_def validate_tag_def
  tag_value_def dict_get_default_def dict_item_def rename_tag_def captured_count_tag_def
  str_int_4 py_int_def int_strip_def is_int_space_def is_space_def is_digit_def digits_value_def
  digit_val_def
  re_sub_negated_class_def str_replace_def RESTRICTED_ECS_TAG_VALUE_SET_CHARACTERS_def
  resource_kind_def Let_def

theorem fail_fast_batch_witness:
  "fst (stop_instances (resize_raises ''s2'')
          [example_service ''s1'', example_service ''s2'', example_service ''s3'']
          example_world)
     = [(''s1'', STATE_STOPPED)]
   \<and> fst (start_instances (resize_raises ''s2'')
          [example_service ''s1'', example_service ''s2'', example_service ''s3'']
          example_world)
     = [(''s1'', STATE_RUNNING)]"
proof -
  let ?E = "resize_raises ''s2''"
  let ?w1 = "snd (stop_instances ?E [example_service ''s1''] example_world)"
  let ?v1 = "snd (start_instances ?E [example_service ''s1''] example_world)"
  have "stop_instances ?E ([example_service ''s1''] @ example_service ''s2'' # [example_service ''s3''])
          example_world
        = (map (\<lambda>x. (inst_id x, STATE_STOPPED)) [example_service ''s1''],
           logger ERROR ERR_STOPPING_INSTANCE
             [Str (resource_kind (example_service ''s2'')), Str (arn (example_service ''s2'')),
              Exc (ClientError ''throttled'')]
             (snd (stop_resource ?E (example_service ''s2'') ?w1)))"
    using fail_fast_batch
            [where env = ?E and pre = "[example_service ''s1'']" and w = example_world
               and res = "fst (stop_instances ?E [example_service ''s1''] example_world)"
               and ?w1.0 = ?w1 and r = "example_service ''s2''"
               and ex = "ClientError ''throttled''"
               and ?w2.0 = "snd (stop_resource ?E (example_service ''s2'') ?w1)"
               and post = "[example_service ''s3'']"]
    by (simp add: example_eval)
  moreover
  have "start_instances ?E ([example_service ''s1''] @ example_service ''s2'' # [example_service ''s3''])
          example_world
        = (map (\<lambda>x. (inst_id x, STATE_RUNNING)) [example_service ''s1''],
           logger ERROR ERR_STARTING_INSTANCE
             [Str (resource_kind (example_service ''s2'')), Str (arn (example_service ''s2'')),
              Exc (ClientError ''throttled'')]
             (snd (start_resource ?E (example_service ''s2'') ?v1)))"
    using fail_fast_batch
            [where env = ?E and pre = "[example_service ''s1'']" and w = example_world
               and res = "fst (start_instances ?E [example_service ''s1''] example_world)"
               and ?w1.0 = ?v1 and r = "example_service ''s2''"
               and ex = "ClientError ''throttled''"
               and ?w2.0 = "snd (start_resource ?E (example_service ''s2'') ?v1)"
               and post = "[example_service ''s3'']"]
    by (simp add: example_eval)
  ultimately show ?thesis by (simp add: example_service_def)
qed

theorem tagging_failures_non_fatal_witness:
  "wf_config example_world
   \<and> fst (stop_instances tagging_raises [example_service ''s1''] example_world)
      = [(''s1'', STATE_STOPPED)]
   \<and> snd (stop_instances tagging_raises [example_service ''s1''] example_world)
      = \<lparr>calls = [(UpdateService ''cluster'' ''s1'' 0, None),
                  (UntagResource ''s1'' [''owner''], Some (ClientError ''denied''))],
         log = [(INFO, INF_REMOVE_KEYS,
                 [Str ''start'', Str (join_quoted [''owner'']), Str ''s1'']),
                (WARNING, WARN_TAGGING_STOPPED, [Str ''s1'', Exc (ClientError ''denied'')])],
         started_tags = [[(''key'', ''state''), (''value'', ''on'')],
                         [(''key'', ''owner''), (''value'', ''ops'')]],
         stopped_tags = [[(''Key'', ''state''), (''Value'', ''off'')]]\<rparr>
   \<and> fst (start_instances tagging_raises [example_service ''s1''] example_world)
      = [(''s1'', STATE_RUNNING)]
   \<and> snd (start_instances tagging_raises [example_service ''s1''] example_world)
      = \<lparr>calls = [(UpdateService ''cluster'' ''s1'' 4, None),
                  (TagResource ''s1'' [[(''key'', ''state''), (''value'', ''on'')],
                                      [(''key'', ''owner''), (''value'', ''ops'')]],
                   Some (ClientError ''denied''))],
         log = [(INFO, INF_ADD_TAGS,
                 [Str ''start'', Dicts [[(''key'', ''state''), (''value'', ''on'')],
                                        [(''key'', ''owner''), (''value'', ''ops'')]],
                  Str ''s1'']),
                (WARNING, WARN_TAGGING_STARTED, [Str ''s1'', Exc (ClientError ''denied'')])],
         started_tags = [[(''Key'', ''state''), (''Value'', ''on'')],
                         [(''Key'', ''owner''), (''Value'', ''ops'')]],
         stopped_tags = [[(''key'', ''state''), (''value'', ''off'')]]\<rparr>"
proof -
  let ?r = "example_service ''s1''"
  note t = tagging_failures_non_fatal
             [where w = example_world and env = tagging_raises and r = ?r and rs = "[]"
                and s = "''4''" and n = 4]
  have u0: "tagging_raises (calls example_world) (UpdateService (cluster_arn ?r) (arn ?r) 0) = None"
    and u4: "tagging_raises (calls example_world) (UpdateService (cluster_arn ?r) (arn ?r) 4) = None"
    by (simp_all add: tagging_raises_def)
  have p: "map_of (tags ?r) ''ScheduledLastDesiredCount'' = Some ''4''" "py_int ''4'' = Inr 4"
    by (simp_all add: example_eval)
  from t [THEN conjunct1] example_wf u0
  obtain w' where "stop_instances tagging_raises [?r] example_world
             = ((inst_id ?r, STATE_STOPPED) # fst (stop_instances tagging_raises [] w'),
                snd (stop_instances tagging_raises [] w'))"
    by blast
  then have a: "fst (stop_instances tagging_raises [?r] example_world) = [(''s1'', STATE_STOPPED)]"
    by (simp add: example_service_def)
  from t [THEN conjunct2] example_wf p u4
  obtain v' where "start_instances tagging_raises [?r] example_world
             = ((inst_id ?r, STATE_RUNNING) # fst (start_instances tagging_raises [] v'),
                snd (start_instances tagging_raises [] v'))"
    by blast
  then have b: "fst (start_instances tagging_raises [?r] example_world) = [(''s1'', STATE_RUNNING)]"
    by (simp add: example_service_def)
  have c: "snd (stop_instances tagging_raises [?r] example_world)
      = \<lparr>calls = [(UpdateService ''cluster'' ''s1'' 0, None),
                  (UntagResource ''s1'' [''owner''], Some (ClientError ''denied''))],
         log = [(INFO, INF_REMOVE_KEYS,
                 [Str ''start'', Str (join_quoted [''owner'']), Str ''s1'']),
                (WARNING, WARN_TAGGING_STOPPED, [Str ''s1'', Exc (ClientError ''denied'')])],
         started_tags = [[(''key'', ''state''), (''value'', ''on'')],
                         [(''key'', ''owner''), (''value'', ''ops'')]],
         stopped_tags = [[(''Key'', ''state''), (''Value'', ''off'')]]\<rparr>"
    by (simp add: example_eval)
  have d: "snd (start_instances tagging_raises [?r] example_world)
      = \<lparr>calls = [(UpdateService ''cluster'' ''s1'' 4, None),
                  (TagResource ''s1'' [[(''key'', ''state''), (''value'', ''on'')],
                                      [(''key'', ''owner''), (''value'', ''ops'')]],
                   Some (ClientError ''denied''))],
         log = [(INFO, INF_ADD_TAGS,
                 [Str ''start'', Dicts [[(''key'', ''state''), (''value'', ''on'')],
                                        [(''key'', ''owner''), (''value'', ''ops'')]],
                  Str ''s1'']),
                (WARNING, WARN_TAGGING_STARTED, [Str ''s1'', Exc (ClientError ''denied'')])],
         started_tags = [[(''Key'', ''state''), (''Value'', ''on'')],
                         [(''Key'', ''owner''), (''Value'', ''ops'')]],
         stopped_tags = [[(''key'', ''state''), (''value'', ''off'')]]\<rparr>"
    by (simp add: example_eval)
  show ?thesis using example_wf a b c d by (simp del: stop_instances.simps start_instances.simps)
qed

text \<open>
  A start batch whose first resource carries a captured count that \<open>int\<close> does not parse:
  the ValueError reaches the \<open>except\<close> clause before any call, nothing is yielded and
  the second resource is not touched.
\<close>

lemma start_instances_padded_count:
  "start_instances never_raises [padded_count_service ''s1'', example_service ''s2'']
     example_world
   = ([], example_world
            \<lparr>log := [(ERROR, ERR_STARTING_INSTANCE,
                      [Str ''instance'', Str ''s1'',
                       Exc (ValueError [CHR 0x1C, CHR ''4''])])]\<rparr>)"
  by (simp add: padded_count_service_def example_eval)

section \<open>Validation on the way to the tagging calls\<close>

text \<open>
  C9 (the code at the failing input): the stopped tags of the configuration hold the
  record \<open>Key = state\<close>, \<open>Value = o#f\<close>, in the form both tagging paths rename. Validation
  reads the entry under \<open>value\<close> only and runs before the renaming, so it returns the
  record as it is and logs no warning, although \<open>#\<close> is outside the allowed set; the stop
  path then renames the record and applies the tag with the value \<open>o#f\<close>. The same value
  under the key \<open>value\<close> is sanitised to \<open>o f\<close> with a warning. Besides, the letter with
  code point 233 is replaced by a space: the pattern lets only \<open>a\<close> to \<open>z\<close> and \<open>A\<close> to \<open>Z\<close>
  through, where the text of the warning speaks of the Unicode letters.
\<close>

theorem key_value_record_not_validated:
  "validate_ecs_tag_values [[(''Key'', ''state''), (''Value'', ''o#f'')]]
     = ([[(''Key'', ''state''), (''Value'', ''o#f'')]], [])
   \<and> validate_ecs_tag_values [[(''key'', ''state''), (''value'', ''o#f'')]]
     = ([[(''key'', ''state''), (''value'', ''o f'')]],
        [(WARNING, WARN_RDS_TAG_VALUE,
          [Str ''o#f'', Dict [(''key'', ''state''), (''value'', ''o#f'')], Str ''o f''])])
   \<and> map fst (calls (snd (tag_stopped_resource never_raises (example_service ''s1'')
                            raw_value_world)))
     = [UntagResource ''s1'' [''owner''],
        TagResource ''s1'' [[(''key'', ''state''), (''value'', ''o#f'')],
                            [(''key'', ''ScheduledLastDesiredCount''), (''value'', ''4'')]]]
   \<and> fst (validate_ecs_tag_values [[(''key'', ''owner''), (''value'', [CHR 0xE9])]])
     = [[(''key'', ''owner''), (''value'', '' '')]]"
  by (simp add: raw_value_world_def example_eval)

section \<open>Properties of discovery\<close>

lemmas discovery_eval = get_schedulable_instances_def get_schedulable_ecs_clusters_def
  get_schedulable_ecs_services_def get_all_services_def two_untagged_clusters_def
  example_service_data_def validate_service_page_def filter_resource_based_on_tags_def
  get_tags_def

lemma without_schedule_loop_last:
  "cs \<noteq> [] \<Longrightarrow> without_schedule_loop fuel client tagname cs services = Some (Inr out) \<Longrightarrow>
     get_schedulable_ecs_services fuel client tagname (last cs) = Some (Inr out)"
proof (induction cs arbitrary: services)
  case Nil
  then show ?case by simp
next
  case (Cons c cs)
  show ?case
  proof (cases cs)
    case Nil
    then show ?thesis using Cons.prems(2) by (simp split: option.splits sum.splits)
  next
    case (Cons d ds)
    then show ?thesis
      using Cons.prems(2) Cons.IH by (auto split: option.splits sum.splits)
  qed
qed

lemma validate_service_page_classifies:
  "map INST_ID (validate_service_page tagname page) = map serviceArn page
   \<and> map INST_SERVICE_STOP_TAG (validate_service_page tagname page)
       = map (\<lambda>sd. \<not> filter_resource_based_on_tags tagname (service_tags sd)) page"
  by (induction page)
     (simp_all add: validate_service_page_def select_resource_data_def Let_def)

text \<open>
  C1 (the code at the failing input): the inventory has two clusters without the
  schedule tag. Discovery of cluster \<open>alpha\<close> alone returns its untagged service \<open>svc-a\<close>
  with the force-stop mark set, but \<open>get_schedulable_instances\<close> returns only the
  service \<open>svc-b\<close> of \<open>beta\<close>, the last cluster without the tag: the loop assigns the
  services of each such cluster over those of the one before.
\<close>

theorem untagged_cluster_services_overwritten:
  "get_schedulable_ecs_clusters 1 two_untagged_clusters ''Schedule''
     = Some (Inr \<lparr>clusters_with_schedule = [],
                  clusters_without_schedule = [''alpha'', ''beta'']\<rparr>)
   \<and> get_schedulable_ecs_services 1 two_untagged_clusters ''Schedule'' ''alpha''
     = Some (Inr [select_resource_data ''Schedule''
                    (example_service_data ''alpha'' ''svc-a'' []) True])
   \<and> get_schedulable_instances 1 two_untagged_clusters ''Schedule''
     = Some (Inr [select_resource_data ''Schedule''
                    (example_service_data ''beta'' ''svc-b'' [(''Schedule'', ''office'')]) False])
   \<and> INST_ID (select_resource_data ''Schedule''
                (example_service_data ''beta'' ''svc-b'' [(''Schedule'', ''office'')]) False)
     = ''svc-b''
   \<and> INST_ID (select_resource_data ''Schedule''
                (example_service_data ''alpha'' ''svc-a'' []) True)
     = ''svc-a''
   \<and> INST_SERVICE_STOP_TAG (select_resource_data ''Schedule''
                (example_service_data ''alpha'' ''svc-a'' []) True)"
  by (simp add: discovery_eval select_resource_data_def Let_def)


end
